theory Spec2Isabelle
  imports Main
begin

section \<open>Data model\<close>

text \<open>
  The builder of \<^verbatim>\<open>sdk/typescript/src/builder/Transaction.ts\<close>. The types it imports
  from \<^verbatim>\<open>../types\<close>, \<^verbatim>\<open>./Inputs\<close> and \<^verbatim>\<open>./Commands\<close> are not among the sources and
  follow the data model of the specification.
\<close>

text \<open>
  Modelled from the spec: \<^verbatim>\<open>SuiObjectRef\<close> of \<^verbatim>\<open>../types\<close> and the shared reference that
  \<^verbatim>\<open>Inputs.SharedObjectRef\<close> takes. An owned reference carries id, version and digest; a
  shared one the id, the initial shared version and the mutable flag.
\<close>

record SuiObjectRef =
  objectId :: string
  version :: nat
  digest :: string

datatype SharedObjectRef =
  SharedObjectRef (sharedObjectId: string) (initialSharedVersion: nat) (mutable: bool)

text \<open>
  The object argument \<^verbatim>\<open>{ImmOrOwned: ref}\<close> or \<^verbatim>\<open>{Shared: ref}\<close>. The builder writes
  \<^verbatim>\<open>Inputs.ObjectRef(getObjectReference(object)!)\<close>, where the reference may be
  \<^verbatim>\<open>undefined\<close> behind the non-null assertion: hence the option.
\<close>

datatype ObjectArg = ImmOrOwned "SuiObjectRef option" | Shared SharedObjectRef

text \<open>
  The value of an input (\<^verbatim>\<open>unknown\<close> in the source): a raw value (absent, null, boolean,
  integer number, BigInt, string, byte array) or an object tagged \<^verbatim>\<open>Pure\<close> or
  \<^verbatim>\<open>Object\<close>.
  \<open>JKeyed\<close> is the plain object with numeric keys that a byte array becomes when it has
  passed through JSON text.
\<close>

datatype js_value =
    JUndefined
  | JNull
  | JBool bool
  | JNumber int
  | JBigInt int
  | JString string
  | JBytes "nat list"
  | JKeyed "nat list"
  | JPure "nat list"
  | JObject ObjectArg

text \<open>JavaScript truthiness (\<^verbatim>\<open>!!value\<close>): every object is truthy.\<close>

fun truthy :: "js_value \<Rightarrow> bool" where
  "truthy JUndefined = False"
| "truthy JNull = False"
| "truthy (JBool b) = b"
| "truthy (JNumber n) = (n \<noteq> 0)"
| "truthy (JBigInt n) = (n \<noteq> 0)"
| "truthy (JString s) = (s \<noteq> [])"
| "truthy (JBytes bs) = True"
| "truthy (JKeyed bs) = True"
| "truthy (JPure bs) = True"
| "truthy (JObject a) = True"

text \<open>
  Modelled from the spec: \<^verbatim>\<open>is(value, BuilderCallArg)\<close> of \<^verbatim>\<open>./Inputs\<close>, which is not among
  the sources. A resolved value is a tagged call argument: pure bytes, an owned object
  reference or a shared object reference. An \<^verbatim>\<open>ImmOrOwned\<close> without its reference is not one.
\<close>

fun is_BuilderCallArg :: "js_value \<Rightarrow> bool" where
  "is_BuilderCallArg (JPure bs) = True"
| "is_BuilderCallArg (JObject (ImmOrOwned (Some r))) = True"
| "is_BuilderCallArg (JObject (Shared s)) = True"
| "is_BuilderCallArg v = False"

text \<open>
  Modelled from the spec: \<^verbatim>\<open>TransactionInput\<close>, \<^verbatim>\<open>CommandArgument\<close> and
  \<^verbatim>\<open>TransactionCommand\<close> of \<^verbatim>\<open>./Commands\<close>. An input is its index and its value; an
  argument is one of \<open>Input(index)\<close>, \<open>GasCoin\<close>, \<open>Result(index)\<close> and
  \<open>NestedResult(index, position)\<close>; a command is a tagged variant whose fields hold
  arguments.
\<close>

record TransactionInput =
  index :: nat
  val :: js_value

datatype CommandArgument =
    Input nat
  | GasCoin
  | Result nat
  | NestedResult nat nat

text \<open>
  A field of a command holds one argument or an array of arguments. A Move call carries its
  target (the three parts that \<^verbatim>\<open>target.split('::')\<close> is destructured into), its type
  arguments and its arguments; every other command is its kind and its fields in key order.
\<close>

datatype field = Single CommandArgument | Array "CommandArgument list"

record MoveCallCommand =
  target :: "string \<times> string \<times> string"
  typeArguments :: "string list"
  arguments :: "CommandArgument list"

datatype TransactionCommand =
    MoveCall MoveCallCommand
  | Command (kind: string) (fields: "(string \<times> field) list")

record GasConfig =
  budget :: "string option"
  price :: "string option"
  payment :: "SuiObjectRef list option"
  owner :: "string option"

text \<open>\<^verbatim>\<open>optional(nullable(object({ Epoch: integer() })))\<close>: absent, null or an epoch.\<close>

datatype TransactionExpiration = ExpirationNull | Epoch int

record Transaction =
  sender :: "string option"
  expiration :: "TransactionExpiration option"
  gasConfig :: GasConfig
  inputs :: "TransactionInput list"
  commands :: "TransactionCommand list"

text \<open>\<^verbatim>\<open>new Transaction()\<close>: empty lists, an empty gas config, no sender, no expiration.\<close>

definition newTransaction :: Transaction where
  "newTransaction =
     \<lparr>sender = None, expiration = None,
      gasConfig = \<lparr>budget = None, price = None, payment = None, owner = None\<rparr>,
      inputs = [], commands = []\<rparr>"

section \<open>Result references\<close>

text \<open>
  \<^verbatim>\<open>createTransactionResult(index)\<close> is a proxy over the base argument
  \<^verbatim>\<open>{kind: 'Result', index}\<close> with a sparse array \<^verbatim>\<open>nestedResults\<close> that memoizes the
  nested results handed out so far.
\<close>

record TransactionResult =
  baseResult :: CommandArgument
  nestedResults :: "nat \<Rightarrow> CommandArgument option"

definition createTransactionResult :: "nat \<Rightarrow> TransactionResult" where
  "createTransactionResult i = \<lparr>baseResult = Result i, nestedResults = (\<lambda>k. None)\<rparr>"

text \<open>The index the closure captured: the one of the base argument.\<close>

fun resultIndexOf :: "CommandArgument \<Rightarrow> nat" where
  "resultIndexOf (Result i) = i"
| "resultIndexOf (Input i) = i"
| "resultIndexOf (NestedResult i k) = i"
| "resultIndexOf GasCoin = 0"

fun kindOf :: "CommandArgument \<Rightarrow> string" where
  "kindOf (Input i) = ''Input''"
| "kindOf GasCoin = ''GasCoin''"
| "kindOf (Result i) = ''Result''"
| "kindOf (NestedResult i k) = ''NestedResult''"

text \<open>\<^verbatim>\<open>nestedResults[resultIndex] ??= {kind: 'NestedResult', index, resultIndex}\<close>\<close>

definition nestedResultFor :: "TransactionResult \<Rightarrow> nat \<Rightarrow> CommandArgument \<times> TransactionResult" where
  "nestedResultFor r resultIndex =
     (case nestedResults r resultIndex of
        Some v \<Rightarrow> (v, r)
      | None \<Rightarrow>
          (let v = NestedResult (resultIndexOf (baseResult r)) resultIndex
           in (v, r\<lparr>nestedResults := (nestedResults r)(resultIndex \<mapsto> v)\<rparr>)))"

datatype property = Key string | SymbolIterator | OtherSymbol

text \<open>What a property read of the proxy returns.\<close>

datatype got =
    GotString string
  | GotNumber nat
  | GotInherited string
  | GotIterator
  | GotArgument CommandArgument
  | GotUndefined

text \<open>
  \<^verbatim>\<open>property in target\<close>: the own keys \<^verbatim>\<open>kind\<close> and \<^verbatim>\<open>index\<close> of the base argument, and
  the members every object inherits from \<^verbatim>\<open>Object.prototype\<close>.
\<close>

definition objectPrototypeKeys :: "string list" where
  "objectPrototypeKeys =
     [''constructor'', ''hasOwnProperty'', ''isPrototypeOf'', ''propertyIsEnumerable'',
      ''toLocaleString'', ''toString'', ''valueOf'', ''__proto__'', ''__defineGetter__'',
      ''__defineSetter__'', ''__lookupGetter__'', ''__lookupSetter__'']"

definition in_target :: "string \<Rightarrow> bool" where
  "in_target k = (k = ''kind'' \<or> k = ''index'' \<or> k \<in> set objectPrototypeKeys)"

text \<open>
  The \<^verbatim>\<open>get\<close> trap. \<open>parseInt\<close> stands for the platform's \<^verbatim>\<open>parseInt(property, 10)\<close>,
  \<open>None\<close> being \<^verbatim>\<open>NaN\<close>.
\<close>

definition proxy_get ::
  "(string \<Rightarrow> int option) \<Rightarrow> TransactionResult \<Rightarrow> property \<Rightarrow> got \<times> TransactionResult" where
  "proxy_get parseInt r p =
     (case p of
        Key k \<Rightarrow>
          (if in_target k then
             (if k = ''kind'' then (GotString (kindOf (baseResult r)), r)
              else if k = ''index'' then (GotNumber (resultIndexOf (baseResult r)), r)
              else (GotInherited k, r))
           else
             (case parseInt k of
                None \<Rightarrow> (GotUndefined, r)
              | Some resultIndex \<Rightarrow>
                  (if resultIndex < 0 then (GotUndefined, r)
                   else (case nestedResultFor r (nat resultIndex) of
                           (v, r') \<Rightarrow> (GotArgument v, r')))))
      | SymbolIterator \<Rightarrow> (GotIterator, r)
      | OtherSymbol \<Rightarrow> (GotUndefined, r))"

text \<open>The first \<open>n\<close> values of the generator behind \<^verbatim>\<open>Symbol.iterator\<close>.\<close>

fun iterate :: "TransactionResult \<Rightarrow> nat \<Rightarrow> nat \<Rightarrow> CommandArgument list \<times> TransactionResult" where
  "iterate r i 0 = ([], r)"
| "iterate r i (Suc n) =
     (case nestedResultFor r i of
        (v, r') \<Rightarrow> (case iterate r' (Suc i) n of (vs, r'') \<Rightarrow> (v # vs, r'')))"

text \<open>A sequence of property reads, each on the state the previous one left.\<close>

fun proxy_gets ::
  "(string \<Rightarrow> int option) \<Rightarrow> TransactionResult \<Rightarrow> property list \<Rightarrow> TransactionResult" where
  "proxy_gets parseInt r [] = r"
| "proxy_gets parseInt r (p # ps) = proxy_gets parseInt (snd (proxy_get parseInt r p)) ps"

section \<open>Adding inputs and commands\<close>

text \<open>
  \<^verbatim>\<open>input(value)\<close>: the index is the length of the list, the new input is pushed and returned.
\<close>

definition input :: "js_value \<Rightarrow> Transaction \<Rightarrow> TransactionInput \<times> Transaction" where
  "input v tx =
     (let i = length (inputs tx);
          inp = \<lparr>index = i, val = v\<rparr>
      in (inp, tx\<lparr>inputs := inputs tx @ [inp]\<rparr>))"

text \<open>
  \<^verbatim>\<open>add(command)\<close>: \<^verbatim>\<open>push\<close> returns the new length, and the result is bound to that
  length minus one.
\<close>

definition add :: "TransactionCommand \<Rightarrow> Transaction \<Rightarrow> TransactionResult \<times> Transaction" where
  "add c tx =
     (let cs = commands tx @ [c]
      in (createTransactionResult (length cs - 1), tx\<lparr>commands := cs\<rparr>))"

datatype addition = AddInput js_value | AddCommand TransactionCommand

fun apply_addition :: "Transaction \<Rightarrow> addition \<Rightarrow> Transaction" where
  "apply_addition tx (AddInput v) = snd (input v tx)"
| "apply_addition tx (AddCommand c) = snd (add c tx)"

definition additions :: "addition list \<Rightarrow> Transaction \<Rightarrow> Transaction" where
  "additions ops tx = foldl apply_addition tx ops"

section \<open>Errors and collaborators\<close>

text \<open>
  One constructor for each place where the builder throws. \<open>NotBuilderCallArg\<close> and
  \<open>NotSerializedTransactionBuilder\<close> are the failures of the schema assertions
  (\<^verbatim>\<open>assert\<close>, \<^verbatim>\<open>create\<close>), the first with the value that was refused; \<open>TypeError\<close> is the
  platform's error on reading a property of \<^verbatim>\<open>undefined\<close>; \<open>External\<close> wraps what a
  collaborator (the provider, the codec, an imported helper) raised.
\<close>

datatype error =
    MissingGasBudget
  | MissingGasPayment
  | MissingSender
  | NoProvider
  | MissingInput
  | UnexpectedInputFormat
  | IncorrectNumberOfArguments
  | ExpectObjectId js_value
  | UnknownCallArgType
  | NotBuilderCallArg js_value
  | TypeError
  | InputValuesMustBeProvided
  | FromBytesUnsupported
  | JsonSyntaxError
  | NotSerializedTransactionBuilder
  | ResultIsProxy
  | External string

text \<open>The \<^verbatim>\<open>set\<close> trap of a result reference always throws.\<close>

definition proxy_set :: "TransactionResult \<Rightarrow> property \<Rightarrow> js_value \<Rightarrow> error + unit" where
  "proxy_set r p v = Inl ResultIsProxy"

text \<open>
  The provider is the external chain-state service. \<open>'p\<close> is the type of a normalized Move
  parameter type, \<open>'o\<close> the type of an object response; a call answers with a value or with
  the message of the error it raised.
\<close>

record ('p, 'o) Provider =
  getReferenceGasPrice :: "string + nat"
  getNormalizedMoveFunction :: "string \<Rightarrow> string \<Rightarrow> string \<Rightarrow> string + 'p list"
  getObjectBatch :: "string list \<Rightarrow> string + 'o list"

datatype call =
    CallGetReferenceGasPrice
  | CallGetNormalizedMoveFunction string string string
  | CallGetObjectBatch "string list"

datatype WellKnownEncoding = WKObject | WKPure string

record field_schema =
  isArray :: bool
  wellKnownEncoding :: "WellKnownEncoding option"

datatype td_expiration = ExpirationNone | ExpirationEpoch int

text \<open>The object handed to the binary codec (\<^verbatim>\<open>transactionData\<close> of \<^verbatim>\<open>build\<close>).\<close>

record TransactionData =
  td_sender :: "string option"
  td_expiration :: td_expiration
  td_payment :: "SuiObjectRef list option"
  td_owner :: "string option"
  td_price :: "string option"
  td_budget :: "string option"
  td_inputs :: "js_value list"
  td_commands :: "TransactionCommand list"

text \<open>
  The functions the builder imports from modules that are not among the sources
  (\<^verbatim>\<open>./serializer\<close>, \<^verbatim>\<open>../types\<close>, \<^verbatim>\<open>./Commands\<close>, \<^verbatim>\<open>./Inputs\<close>, \<^verbatim>\<open>./bcs\<close>), taken as
  parameters:
  \<^item> \<open>isTxContext\<close>, \<open>getPureSerializationType\<close> (the serialization type, if the parameter
    is pure), \<open>extractStructTag\<close>, \<open>isTypeParameter\<close> (\<^verbatim>\<open>'TypeParameter' in param\<close>) on
    parameter types;
  \<^item> \<open>normalizeSuiObjectId\<close> on package identifiers;
  \<^item> \<open>getSharedObjectInitialVersion\<close> and \<open>getObjectReference\<close> on object responses;
  \<^item> \<open>commandSchema\<close>: \<^verbatim>\<open>getTransactionCommandType(command).schema\<close>, which gives every
    key of the command its field schema;
  \<^item> \<open>pureSer\<close>: the bytes \<^verbatim>\<open>builder.ser(type, data).toBytes()\<close> behind \<^verbatim>\<open>Inputs.Pure\<close>;
  \<^item> \<open>serTransactionData\<close>: \<^verbatim>\<open>builder.ser('TransactionData', {V1: data}).toBytes()\<close>.
\<close>

record ('p, 'o) helpers =
  isTxContext :: "'p \<Rightarrow> bool"
  getPureSerializationType :: "'p \<Rightarrow> js_value \<Rightarrow> string + string option"
  extractStructTag :: "'p \<Rightarrow> string option"
  isTypeParameter :: "'p \<Rightarrow> bool"
  normalizeSuiObjectId :: "string \<Rightarrow> string"
  getSharedObjectInitialVersion :: "'o \<Rightarrow> nat option"
  getObjectReference :: "'o \<Rightarrow> SuiObjectRef option"
  commandSchema :: "TransactionCommand \<Rightarrow> (string \<Rightarrow> field_schema option) option"
  pureSer :: "string \<Rightarrow> js_value \<Rightarrow> string + nat list"
  serTransactionData :: "TransactionData \<Rightarrow> string + nat list"

definition external :: "string + 'a \<Rightarrow> error + 'a" where
  "external r = (case r of Inl msg \<Rightarrow> Inl (External msg) | Inr x \<Rightarrow> Inr x)"

definition expectProvider :: "'a option \<Rightarrow> error + 'a" where
  "expectProvider provider = (case provider of None \<Rightarrow> Inl NoProvider | Some p \<Rightarrow> Inr p)"

text \<open>
  Modelled from the spec: \<^verbatim>\<open>Inputs.Pure\<close>, \<^verbatim>\<open>Inputs.ObjectRef\<close> and
  \<^verbatim>\<open>Inputs.SharedObjectRef\<close> of \<^verbatim>\<open>./Inputs\<close>, which is not among the sources: they wrap
  the encoded bytes or the reference in its tag.
\<close>

definition Inputs_Pure :: "('p, 'o) helpers \<Rightarrow> string \<Rightarrow> js_value \<Rightarrow> error + js_value" where
  "Inputs_Pure h type data =
     (case external (pureSer h type data) of Inl e \<Rightarrow> Inl e | Inr bytes \<Rightarrow> Inr (JPure bytes))"

definition Inputs_ObjectRef :: "SuiObjectRef option \<Rightarrow> js_value" where
  "Inputs_ObjectRef ref = JObject (ImmOrOwned ref)"

definition Inputs_SharedObjectRef :: "SharedObjectRef \<Rightarrow> js_value" where
  "Inputs_SharedObjectRef ref = JObject (Shared ref)"

section \<open>Build\<close>

text \<open>
  What one run of \<^verbatim>\<open>build\<close> works on: the builder, the two local queues and the external
  calls issued so far. Every stage returns its outcome together with the state it leaves.
\<close>

record build_state =
  tx :: Transaction
  moveModulesToResolve :: "MoveCallCommand list"
  objectsToResolve :: "(string \<times> nat) list"
  calls :: "call list"

definition andThen ::
  "('s \<Rightarrow> (error + 'a) \<times> 's) \<Rightarrow> ('a \<Rightarrow> 's \<Rightarrow> (error + 'b) \<times> 's) \<Rightarrow> 's \<Rightarrow> (error + 'b) \<times> 's" where
  "andThen f g s = (case f s of (Inl e, s') \<Rightarrow> (Inl e, s') | (Inr x, s') \<Rightarrow> g x s')"

text \<open>\<^verbatim>\<open>forEach\<close> with a callback that may throw: the first throw ends the loop.\<close>

fun forEach :: "('a \<Rightarrow> 's \<Rightarrow> (error + unit) \<times> 's) \<Rightarrow> 'a list \<Rightarrow> 's \<Rightarrow> (error + unit) \<times> 's" where
  "forEach f [] s = (Inr (), s)"
| "forEach f (x # xs) s =
     (case f x s of (Inl e, s') \<Rightarrow> (Inl e, s') | (Inr u, s') \<Rightarrow> forEach f xs s')"

text \<open>\<^verbatim>\<open>!s\<close> for an optional string: absent or empty.\<close>

definition falsy :: "string option \<Rightarrow> bool" where
  "falsy s = (s = None \<or> s = Some [])"

text \<open>\<^verbatim>\<open>String(n)\<close> for a natural number: its decimal digits.\<close>

definition digit :: "nat \<Rightarrow> char" where
  "digit d = ''0123456789'' ! d"

fun String_number :: "nat \<Rightarrow> string" where
  "String_number n =
     (if n < 10 then [digit n] else String_number (n div 10) @ [digit (n mod 10)])"

declare String_number.simps [simp del]

definition set_price :: "string \<Rightarrow> build_state \<Rightarrow> build_state" where
  "set_price p st = st\<lparr>tx := (tx st)\<lparr>gasConfig := (gasConfig (tx st))\<lparr>price := Some p\<rparr>\<rparr>\<rparr>"

text \<open>\<^verbatim>\<open>input.value = v\<close> for the input at position \<open>i\<close> of the list.\<close>

definition set_input_value :: "nat \<Rightarrow> js_value \<Rightarrow> build_state \<Rightarrow> build_state" where
  "set_input_value i v st =
     st\<lparr>tx := (tx st)\<lparr>inputs := (inputs (tx st))[i := (inputs (tx st) ! i)\<lparr>val := v\<rparr>]\<rparr>\<rparr>"

definition log_calls :: "call list \<Rightarrow> build_state \<Rightarrow> build_state" where
  "log_calls cs st = st\<lparr>calls := calls st @ cs\<rparr>"

text \<open>The three checks that open \<^verbatim>\<open>build\<close>, in the order of the source.\<close>

definition validate :: "Transaction \<Rightarrow> error option" where
  "validate t =
     (if falsy (budget (gasConfig t)) then Some MissingGasBudget
      else if payment (gasConfig t) = None then Some MissingGasPayment
      else if falsy (sender t) then Some MissingSender
      else None)"

definition fillGasPrice ::
  "('p, 'o) Provider option \<Rightarrow> build_state \<Rightarrow> (error + unit) \<times> build_state" where
  "fillGasPrice provider st =
     (if falsy (price (gasConfig (tx st))) then
        (case expectProvider provider of
           Inl e \<Rightarrow> (Inl e, st)
         | Inr p \<Rightarrow>
             (case external (getReferenceGasPrice p) of
                Inl e \<Rightarrow> (Inl e, log_calls [CallGetReferenceGasPrice] st)
              | Inr n \<Rightarrow>
                  (Inr (), set_price (String_number n) (log_calls [CallGetReferenceGasPrice] st))))
      else (Inr (), st))"

text \<open>
  \<^verbatim>\<open>command.arguments.some(arg => arg.kind === 'Input' && !is(inputs[arg.index].value,
  BuilderCallArg))\<close>: it stops at the first unresolved input, and reading the value of an
  input that is not in the list is a type error.
\<close>

fun needsResolution :: "TransactionInput list \<Rightarrow> CommandArgument list \<Rightarrow> error + bool" where
  "needsResolution ins [] = Inr False"
| "needsResolution ins (Input i # as) =
     (if i < length ins then
        (if \<not> is_BuilderCallArg (val (ins ! i)) then Inr True else needsResolution ins as)
      else Inl TypeError)"
| "needsResolution ins (a # as) = needsResolution ins as"

definition encodeInput ::
  "('p, 'o) helpers \<Rightarrow> WellKnownEncoding \<Rightarrow> nat \<Rightarrow> build_state \<Rightarrow> (error + unit) \<times> build_state" where
  "encodeInput h wk i st =
     (if i < length (inputs (tx st)) then
        (let v = val (inputs (tx st) ! i) in
         if is_BuilderCallArg v then (Inr (), st)
         else
           (case (wk, v) of
              (WKObject, JString s) \<Rightarrow>
                (Inr (), st\<lparr>objectsToResolve := objectsToResolve st @ [(s, i)]\<rparr>)
            | (WKPure type, _) \<Rightarrow>
                (case Inputs_Pure h type v of
                   Inl e \<Rightarrow> (Inl e, st)
                 | Inr v' \<Rightarrow> (Inr (), set_input_value i v' st))
            | (WKObject, _) \<Rightarrow> (Inl UnexpectedInputFormat, st)))
      else (Inl MissingInput, st))"

definition encodeArgument ::
  "('p, 'o) helpers \<Rightarrow> WellKnownEncoding \<Rightarrow> CommandArgument \<Rightarrow> build_state
     \<Rightarrow> (error + unit) \<times> build_state" where
  "encodeArgument h wk a st =
     (case a of Input i \<Rightarrow> encodeInput h wk i st | _ \<Rightarrow> (Inr (), st))"

text \<open>
  One entry of \<^verbatim>\<open>Object.entries(command)\<close>. A key without a schema fails on
  \<^verbatim>\<open>keySchema.type\<close>; a field the schema calls an array must have \<^verbatim>\<open>forEach\<close>; an array
  where the schema has a single argument has no \<^verbatim>\<open>kind\<close> and is skipped.
\<close>

definition scanField ::
  "('p, 'o) helpers \<Rightarrow> (string \<Rightarrow> field_schema option) \<Rightarrow> string \<times> field \<Rightarrow> build_state
     \<Rightarrow> (error + unit) \<times> build_state" where
  "scanField h schema kv st =
     (if fst kv = ''kind'' then (Inr (), st)
      else
        (case schema (fst kv) of
           None \<Rightarrow> (Inl TypeError, st)
         | Some keySchema \<Rightarrow>
             (case wellKnownEncoding keySchema of
                None \<Rightarrow> (Inr (), st)
              | Some wk \<Rightarrow>
                  (if isArray keySchema then
                     (case snd kv of
                        Array items \<Rightarrow> forEach (encodeArgument h wk) items st
                      | Single a \<Rightarrow> (Inl TypeError, st))
                   else
                     (case snd kv of
                        Single a \<Rightarrow> encodeArgument h wk a st
                      | Array items \<Rightarrow> (Inr (), st))))))"

text \<open>The body of \<^verbatim>\<open>this.#commands.forEach\<close>.\<close>

definition scanCommand ::
  "('p, 'o) helpers \<Rightarrow> TransactionCommand \<Rightarrow> build_state \<Rightarrow> (error + unit) \<times> build_state" where
  "scanCommand h command st =
     (case command of
        MoveCall moveCall \<Rightarrow>
          (case needsResolution (inputs (tx st)) (arguments moveCall) of
             Inl e \<Rightarrow> (Inl e, st)
           | Inr True \<Rightarrow>
               (Inr (), st\<lparr>moveModulesToResolve := moveModulesToResolve st @ [moveCall]\<rparr>)
           | Inr False \<Rightarrow> (Inr (), st))
      | Command k fs \<Rightarrow>
          (case commandSchema h command of
             None \<Rightarrow> (Inr (), st)
           | Some schema \<Rightarrow> forEach (scanField h schema) fs st))"

subsection \<open>Move-call resolution\<close>

text \<open>
  The keys of an input object. Line 411 of the source hands the input itself, not its value,
  to \<^verbatim>\<open>is(_, BuilderCallArg)\<close>: a call argument has the one key \<^verbatim>\<open>Pure\<close> or
  \<^verbatim>\<open>Object\<close>, an input has the keys below, and an input that is not in the list is
  \<^verbatim>\<open>undefined\<close>.
\<close>

definition inputKeys :: "string list" where
  "inputKeys = [''kind'', ''index'', ''value'']"

fun is_BuilderCallArg_input :: "TransactionInput option \<Rightarrow> bool" where
  "is_BuilderCallArg_input None = False"
| "is_BuilderCallArg_input (Some inp) = (inputKeys = [''Pure''] \<or> inputKeys = [''Object''])"

definition inputAt :: "TransactionInput list \<Rightarrow> nat \<Rightarrow> TransactionInput option" where
  "inputAt ins i = (if i < length ins then Some (ins ! i) else None)"

text \<open>\<^verbatim>\<open>hasTxContext\<close> and \<^verbatim>\<open>params\<close>: the parameters the caller supplies.\<close>

definition hasTxContext :: "('p, 'o) helpers \<Rightarrow> 'p list \<Rightarrow> bool" where
  "hasTxContext h parameters = (length parameters > 0 \<and> isTxContext h (last parameters))"

definition callerParameters :: "('p, 'o) helpers \<Rightarrow> 'p list \<Rightarrow> 'p list" where
  "callerParameters h parameters =
     (if hasTxContext h parameters then take (length parameters - 1) parameters else parameters)"

text \<open>
  The body of \<^verbatim>\<open>params.forEach((param, i) => ...)\<close> for one parameter and its argument:
  a truthy serialization type makes the input pure, and otherwise the parameter must be a
  struct or a type parameter and the value an object id string.
\<close>

definition resolveObjectParam ::
  "('p, 'o) helpers \<Rightarrow> 'p \<Rightarrow> nat \<Rightarrow> js_value \<Rightarrow> build_state \<Rightarrow> (error + unit) \<times> build_state" where
  "resolveObjectParam h param i inputValue st =
     (if extractStructTag h param \<noteq> None \<or> isTypeParameter h param then
        (case inputValue of
           JString s \<Rightarrow> (Inr (), st\<lparr>objectsToResolve := objectsToResolve st @ [(s, i)]\<rparr>)
         | v \<Rightarrow> (Inl (ExpectObjectId v), st))
      else (Inl UnknownCallArgType, st))"

definition resolvePureParam ::
  "('p, 'o) helpers \<Rightarrow> string \<Rightarrow> nat \<Rightarrow> js_value \<Rightarrow> build_state \<Rightarrow> (error + unit) \<times> build_state" where
  "resolvePureParam h serType i inputValue st =
     (case Inputs_Pure h serType inputValue of
        Inl e \<Rightarrow> (Inl e, st)
      | Inr v' \<Rightarrow> (Inr (), set_input_value i v' st))"

definition resolveParam ::
  "('p, 'o) helpers \<Rightarrow> 'p \<times> CommandArgument \<Rightarrow> build_state \<Rightarrow> (error + unit) \<times> build_state" where
  "resolveParam h pa st =
     (case snd pa of
        Input i \<Rightarrow>
          (if is_BuilderCallArg_input (inputAt (inputs (tx st)) i) then (Inr (), st)
           else
             (case inputAt (inputs (tx st)) i of
                None \<Rightarrow> (Inl TypeError, st)
              | Some inp \<Rightarrow>
                  (case external (getPureSerializationType h (fst pa) (val inp)) of
                     Inl e \<Rightarrow> (Inl e, st)
                   | Inr None \<Rightarrow> resolveObjectParam h (fst pa) i (val inp) st
                   | Inr (Some serType) \<Rightarrow>
                       (if serType \<noteq> [] then resolvePureParam h serType i (val inp) st
                        else resolveObjectParam h (fst pa) i (val inp) st))))
      | _ \<Rightarrow> (Inr (), st))"

text \<open>
  What one callback of \<^verbatim>\<open>moveModulesToResolve.map(async ...)\<close> does once the provider has
  answered with \<open>normalized\<close>.
\<close>

definition resolveMoveCall ::
  "('p, 'o) helpers \<Rightarrow> error + 'p list \<Rightarrow> MoveCallCommand \<Rightarrow> build_state
     \<Rightarrow> (error + unit) \<times> build_state" where
  "resolveMoveCall h normalized moveCall st =
     (case normalized of
        Inl e \<Rightarrow> (Inl e, st)
      | Inr parameters \<Rightarrow>
          (let params = callerParameters h parameters in
           if length params \<noteq> length (arguments moveCall)
           then (Inl IncorrectNumberOfArguments, st)
           else forEach (resolveParam h) (zip params (arguments moveCall)) st))"

definition moveCallRequest :: "('p, 'o) helpers \<Rightarrow> MoveCallCommand \<Rightarrow> call" where
  "moveCallRequest h moveCall =
     (case target moveCall of
        (packageId, moduleName, functionName) \<Rightarrow>
          CallGetNormalizedMoveFunction (normalizeSuiObjectId h packageId) moduleName functionName)"

definition fetchMoveFunction ::
  "('p, 'o) helpers \<Rightarrow> ('p, 'o) Provider \<Rightarrow> MoveCallCommand \<Rightarrow> error + 'p list" where
  "fetchMoveFunction h p moveCall =
     (case target moveCall of
        (packageId, moduleName, functionName) \<Rightarrow>
          external
            (getNormalizedMoveFunction p (normalizeSuiObjectId h packageId) moduleName functionName))"

text \<open>
  \<^verbatim>\<open>Promise.all\<close> over the queued Move calls. Every callback issues its request before any
  of them resumes; the callbacks are taken to resume in the order of their requests, and
  the outcome is the first failure in that order.
\<close>

definition resolveMoveCalls ::
  "('p, 'o) helpers \<Rightarrow> ('p, 'o) Provider option \<Rightarrow> build_state \<Rightarrow> (error + unit) \<times> build_state" where
  "resolveMoveCalls h provider st =
     (if moveModulesToResolve st = [] then (Inr (), st)
      else
        (case expectProvider provider of
           Inl e \<Rightarrow> (Inl e, st)
         | Inr p \<Rightarrow>
             forEach (\<lambda>moveCall. resolveMoveCall h (fetchMoveFunction h p moveCall) moveCall)
               (moveModulesToResolve st)
               (log_calls (map (moveCallRequest h) (moveModulesToResolve st)) st)))"

subsection \<open>Object resolution\<close>

text \<open>
  The value written for one object response: a shared reference when the initial shared
  version is truthy (a number other than zero), an owned reference otherwise.
\<close>

definition resolvedObject :: "('p, 'o) helpers \<Rightarrow> string \<Rightarrow> 'o \<Rightarrow> js_value" where
  "resolvedObject h oid object =
     (case getSharedObjectInitialVersion h object of
        None \<Rightarrow> Inputs_ObjectRef (getObjectReference h object)
      | Some v \<Rightarrow>
          (if v \<noteq> 0 then Inputs_SharedObjectRef (SharedObjectRef oid v True)
           else Inputs_ObjectRef (getObjectReference h object)))"

text \<open>
  \<^verbatim>\<open>objects.forEach((object, i) => ...)\<close>: the \<open>i\<close>-th response goes to the \<open>i\<close>-th queue
  entry; a response beyond the queue fails on destructuring \<^verbatim>\<open>undefined\<close>.
\<close>

fun writeObjects ::
  "('p, 'o) helpers \<Rightarrow> 'o list \<Rightarrow> (string \<times> nat) list \<Rightarrow> build_state \<Rightarrow> (error + unit) \<times> build_state" where
  "writeObjects h [] q st = (Inr (), st)"
| "writeObjects h (object # objects) [] st = (Inl TypeError, st)"
| "writeObjects h (object # objects) ((oid, i) # q) st =
     writeObjects h objects q (set_input_value i (resolvedObject h oid object) st)"

definition resolveObjects ::
  "('p, 'o) helpers \<Rightarrow> ('p, 'o) Provider option \<Rightarrow> build_state \<Rightarrow> (error + unit) \<times> build_state" where
  "resolveObjects h provider st =
     (if objectsToResolve st = [] then (Inr (), st)
      else
        (case expectProvider provider of
           Inl e \<Rightarrow> (Inl e, st)
         | Inr p \<Rightarrow>
             (case external (getObjectBatch p (map fst (objectsToResolve st))) of
                Inl e \<Rightarrow> (Inl e, log_calls [CallGetObjectBatch (map fst (objectsToResolve st))] st)
              | Inr objects \<Rightarrow>
                  writeObjects h objects (objectsToResolve st)
                    (log_calls [CallGetObjectBatch (map fst (objectsToResolve st))] st))))"

subsection \<open>Assembly\<close>

text \<open>\<^verbatim>\<open>this.#inputs.map(input => { assert(input.value, BuilderCallArg); return input.value })\<close>\<close>

fun resolveInputs :: "TransactionInput list \<Rightarrow> error + js_value list" where
  "resolveInputs [] = Inr []"
| "resolveInputs (inp # ins) =
     (if is_BuilderCallArg (val inp) then
        (case resolveInputs ins of Inl e \<Rightarrow> Inl e | Inr vs \<Rightarrow> Inr (val inp # vs))
      else Inl (NotBuilderCallArg (val inp)))"

definition transactionData :: "Transaction \<Rightarrow> js_value list \<Rightarrow> TransactionData" where
  "transactionData t ins =
     \<lparr>td_sender = sender t,
      td_expiration =
        (case expiration t of Some (Epoch n) \<Rightarrow> ExpirationEpoch n | _ \<Rightarrow> ExpirationNone),
      td_payment = payment (gasConfig t),
      td_owner = (case owner (gasConfig t) of Some a \<Rightarrow> Some a | None \<Rightarrow> sender t),
      td_price = price (gasConfig t),
      td_budget = budget (gasConfig t),
      td_inputs = ins,
      td_commands = commands t\<rparr>"

definition assemble ::
  "('p, 'o) helpers \<Rightarrow> build_state \<Rightarrow> (error + nat list) \<times> build_state" where
  "assemble h st =
     (case resolveInputs (inputs (tx st)) of
        Inl e \<Rightarrow> (Inl e, st)
      | Inr ins \<Rightarrow> (external (serTransactionData h (transactionData (tx st) ins)), st))"

subsection \<open>The pipeline\<close>

definition initial_state :: "Transaction \<Rightarrow> build_state" where
  "initial_state t = \<lparr>tx = t, moveModulesToResolve = [], objectsToResolve = [], calls = []\<rparr>"

text \<open>Price fill, the scan of the commands and the Move-call resolution: what fills the queue.\<close>

definition fillQueue ::
  "('p, 'o) helpers \<Rightarrow> ('p, 'o) Provider option \<Rightarrow> build_state \<Rightarrow> (error + unit) \<times> build_state" where
  "fillQueue h provider =
     andThen (fillGasPrice provider)
       (\<lambda>_. andThen (\<lambda>st. forEach (scanCommand h) (commands (tx st)) st)
          (\<lambda>_. resolveMoveCalls h provider))"

text \<open>The batched object resolution, the completeness check and the encoding.\<close>

definition finish ::
  "('p, 'o) helpers \<Rightarrow> ('p, 'o) Provider option \<Rightarrow> build_state \<Rightarrow> (error + nat list) \<times> build_state" where
  "finish h provider = andThen (resolveObjects h provider) (\<lambda>_. assemble h)"

definition build ::
  "('p, 'o) helpers \<Rightarrow> ('p, 'o) Provider option \<Rightarrow> Transaction \<Rightarrow> (error + nat list) \<times> build_state" where
  "build h provider t =
     (case validate t of
        Some e \<Rightarrow> (Inl e, initial_state t)
      | None \<Rightarrow> andThen (fillQueue h provider) (\<lambda>_. finish h provider) (initial_state t))"

section \<open>Snapshots\<close>

text \<open>
  The document of a snapshot (\<^verbatim>\<open>SerializedTransactionBuilder\<close>). The version is a number so
  that a document with another version can be written down.
\<close>

record SerializedTransactionBuilder =
  snap_version :: int
  snap_sender :: "string option"
  snap_expiration :: "TransactionExpiration option"
  snap_inputs :: "TransactionInput list"
  snap_commands :: "TransactionCommand list"
  snap_gasConfig :: GasConfig

text \<open>
  What \<^verbatim>\<open>from\<close> may be handed: bytes, a string that does not start with a brace, a string
  that starts with one and is not JSON, or the JSON text of a document. \<^verbatim>\<open>JSON.stringify\<close>
  and \<^verbatim>\<open>JSON.parse\<close> are the platform's: \<open>JsonText d\<close> is the text that parses to \<open>d\<close>.
\<close>

datatype serialized =
    SerializedBytes "nat list"
  | PlainText string
  | BrokenJsonText string
  | JsonText SerializedTransactionBuilder

text \<open>
  What a value is after \<^verbatim>\<open>JSON.parse(JSON.stringify(_))\<close>: a byte array comes back as an
  object keyed by position, the other values as they were.
\<close>

fun throughJson :: "js_value \<Rightarrow> js_value" where
  "throughJson (JBytes bs) = JKeyed bs"
| "throughJson v = v"

text \<open>\<^verbatim>\<open>JSON.stringify\<close> throws a type error on a BigInt.\<close>

fun isBigInt :: "js_value \<Rightarrow> bool" where
  "isBigInt (JBigInt n) = True"
| "isBigInt v = False"

definition JSON_stringify :: "SerializedTransactionBuilder \<Rightarrow> error + serialized" where
  "JSON_stringify d =
     (if list_all (\<lambda>inp. \<not> isBigInt (val inp)) (snap_inputs d) then
        Inr (JsonText
              (d\<lparr>snap_inputs :=
                   map (\<lambda>inp. inp\<lparr>val := throughJson (val inp)\<rparr>) (snap_inputs d)\<rparr>))
      else Inl TypeError)"

text \<open>
  The schema check of a document: \<^verbatim>\<open>version: literal(1)\<close>; every command satisfies
  \<^verbatim>\<open>TransactionCommand\<close>, the union of the command schemas of \<^verbatim>\<open>./Commands\<close> (the
  parameter \<open>isCommand\<close>); and the budget and the price of the gas config, when present,
  are \<^verbatim>\<open>StringEncodedBigint\<close>, that is, strings the platform's \<^verbatim>\<open>BigInt\<close> accepts (the
  parameter \<open>bigInt\<close>). The other fields are well-formed by their types.
\<close>

definition StringEncodedBigint :: "(string \<Rightarrow> bool) \<Rightarrow> string option \<Rightarrow> bool" where
  "StringEncodedBigint bigInt s = (case s of None \<Rightarrow> True | Some v \<Rightarrow> bigInt v)"

definition is_GasConfig :: "(string \<Rightarrow> bool) \<Rightarrow> GasConfig \<Rightarrow> bool" where
  "is_GasConfig bigInt g =
     (StringEncodedBigint bigInt (budget g) \<and> StringEncodedBigint bigInt (price g))"

definition is_SerializedTransactionBuilder ::
  "(string \<Rightarrow> bool) \<Rightarrow> (TransactionCommand \<Rightarrow> bool) \<Rightarrow> SerializedTransactionBuilder \<Rightarrow> bool" where
  "is_SerializedTransactionBuilder bigInt isCommand d =
     (snap_version d = 1 \<and> list_all isCommand (snap_commands d)
      \<and> is_GasConfig bigInt (snap_gasConfig d))"

text \<open>
  \<^verbatim>\<open>serialize()\<close>: the check is \<^verbatim>\<open>this.#inputs.every(input => !!input.value)\<close>, and the
  document holds the version, the inputs, the commands and the gas config. \<^verbatim>\<open>create\<close>
  checks the document against its schema before \<^verbatim>\<open>JSON.stringify\<close> writes it.
\<close>

definition serialize ::
  "(string \<Rightarrow> bool) \<Rightarrow> (TransactionCommand \<Rightarrow> bool) \<Rightarrow> Transaction \<Rightarrow> error + serialized" where
  "serialize bigInt isCommand t =
     (let allInputsProvided = list_all (\<lambda>inp. truthy (val inp)) (inputs t) in
      if \<not> allInputsProvided then Inl InputValuesMustBeProvided
      else
        (let data =
           \<lparr>snap_version = 1, snap_sender = None, snap_expiration = None,
            snap_inputs = inputs t, snap_commands = commands t, snap_gasConfig = gasConfig t\<rparr>
         in if is_SerializedTransactionBuilder bigInt isCommand data then JSON_stringify data
            else Inl NotSerializedTransactionBuilder))"

text \<open>\<^verbatim>\<open>Transaction.from(serialized)\<close>\<close>

definition from_serialized ::
  "(string \<Rightarrow> bool) \<Rightarrow> (TransactionCommand \<Rightarrow> bool) \<Rightarrow> serialized \<Rightarrow> error + Transaction" where
  "from_serialized bigInt isCommand s =
     (case s of
        SerializedBytes bs \<Rightarrow> Inl FromBytesUnsupported
      | PlainText str \<Rightarrow> Inl FromBytesUnsupported
      | BrokenJsonText str \<Rightarrow> Inl JsonSyntaxError
      | JsonText parsed \<Rightarrow>
          (if is_SerializedTransactionBuilder bigInt isCommand parsed then
             Inr \<lparr>sender = snap_sender parsed, expiration = snap_expiration parsed,
                  gasConfig = snap_gasConfig parsed, inputs = snap_inputs parsed,
                  commands = snap_commands parsed\<rparr>
           else Inl NotSerializedTransactionBuilder))"

text \<open>Restoring what \<^verbatim>\<open>serialize\<close> produced.\<close>

definition restore_serialized ::
  "(string \<Rightarrow> bool) \<Rightarrow> (TransactionCommand \<Rightarrow> bool) \<Rightarrow> Transaction \<Rightarrow> error + Transaction" where
  "restore_serialized bigInt isCommand t =
     (case serialize bigInt isCommand t of
        Inl e \<Rightarrow> Inl e
      | Inr s \<Rightarrow> from_serialized bigInt isCommand s)"

section \<open>Predicates of the properties\<close>

definition resolved :: "TransactionInput \<Rightarrow> bool" where
  "resolved inp = is_BuilderCallArg (val inp)"

definition provided :: "TransactionInput \<Rightarrow> bool" where
  "provided inp = truthy (val inp)"

text \<open>An input that was given a value, and one whose value JSON text can hold.\<close>

definition has_value :: "TransactionInput \<Rightarrow> bool" where
  "has_value inp = (val inp \<noteq> JUndefined)"

definition jsonable :: "TransactionInput \<Rightarrow> bool" where
  "jsonable inp = (\<not> isBigInt (val inp))"

text \<open>Every memoized entry of a result reference is the nested result of its position.\<close>

definition cache_ok :: "TransactionResult \<Rightarrow> bool" where
  "cache_ok r =
     (\<forall>k v. nestedResults r k = Some v \<longrightarrow> v = NestedResult (resultIndexOf (baseResult r)) k)"

text \<open>Every queue entry points at an input of the list.\<close>

definition queue_ok :: "build_state \<Rightarrow> bool" where
  "queue_ok st = list_all (\<lambda>e. snd e < length (inputs (tx st))) (objectsToResolve st)"

section \<open>An instance of the collaborators\<close>

text \<open>
  Parameter types are named by strings and an object response is the pair of its initial
  shared version (zero when it is not shared) and its reference, if the object exists. The
  function \<open>split\<close> has the signature \<open>(Coin, U64, TxContext)\<close>, and the command
  \<open>SplitCoin\<close> has an object field \<open>coin\<close> and a pure field \<open>amount\<close>.
\<close>

definition example_schema :: "string \<Rightarrow> field_schema option" where
  "example_schema key =
     (if key = ''coin'' then Some \<lparr>isArray = False, wellKnownEncoding = Some WKObject\<rparr>
      else if key = ''amount'' then Some \<lparr>isArray = False, wellKnownEncoding = Some (WKPure ''u64'')\<rparr>
      else None)"

definition example_helpers :: "(string, nat \<times> SuiObjectRef option) helpers" where
  "example_helpers =
     \<lparr>isTxContext = (\<lambda>p. p = ''TxContext''),
      getPureSerializationType = (\<lambda>p v. if p = ''U64'' then Inr (Some ''u64'') else Inr None),
      extractStructTag = (\<lambda>p. if p = ''Coin'' then Some ''0x2::coin::Coin'' else None),
      isTypeParameter = (\<lambda>p. False),
      normalizeSuiObjectId = (\<lambda>s. s),
      getSharedObjectInitialVersion = (\<lambda>ob. if fst ob = 0 then None else Some (fst ob)),
      getObjectReference = snd,
      commandSchema =
        (\<lambda>c. case c of
           Command k fs \<Rightarrow> (if k = ''SplitCoin'' then Some example_schema else None)
         | MoveCall m \<Rightarrow> None),
      pureSer =
        (\<lambda>t v. case v of
           JNumber n \<Rightarrow> (if 0 \<le> n then Inr [nat n] else Inl ''out of range'')
         | _ \<Rightarrow> Inl ''not a number''),
      serTransactionData =
        (\<lambda>d. Inr (map (\<lambda>v. case v of JPure bs \<Rightarrow> length bs | _ \<Rightarrow> 0) (td_inputs d)))\<rparr>"

text \<open>A codec that encodes whatever it is given as the one byte 9.\<close>

definition lenient_helpers :: "(string, nat \<times> SuiObjectRef option) helpers" where
  "lenient_helpers = example_helpers\<lparr>pureSer := (\<lambda>t v. Inr [9])\<rparr>"

definition example_provider :: "(string, nat \<times> SuiObjectRef option) Provider" where
  "example_provider =
     \<lparr>getReferenceGasPrice = Inr 1000,
      getNormalizedMoveFunction =
        (\<lambda>pkg m f. if f = ''split'' then Inr [''Coin'', ''U64'', ''TxContext'']
                   else if f = ''add'' then Inr [''U64'', ''U64'']
                   else Inl ''no such function''),
      getObjectBatch =
        (\<lambda>ids. Inr (map (\<lambda>i. (if i = ''0x6'' then 1 else 0,
                                 if i = ''0x404'' then None
                                 else Some \<lparr>objectId = i, version = 3, digest = ''d''\<rparr>)) ids))\<rparr>"

definition example_gas :: GasConfig where
  "example_gas =
     \<lparr>budget = Some ''1000'', price = None,
      payment = Some [\<lparr>objectId = ''0x9'', version = 1, digest = ''g''\<rparr>], owner = None\<rparr>"

text \<open>
  The end-to-end example of the specification: \<open>split\<close> called on the object \<open>0x5\<close> and the
  number 100.
\<close>

definition example_tx :: Transaction where
  "example_tx =
     \<lparr>sender = Some ''S'', expiration = None, gasConfig = example_gas,
      inputs = [\<lparr>index = 0, val = JString ''0x5''\<rparr>, \<lparr>index = 1, val = JNumber 100\<rparr>],
      commands =
        [MoveCall \<lparr>target = (''pkg'', ''pay'', ''split''), typeArguments = [],
                   arguments = [Input 0, Input 1]\<rparr>]\<rparr>"

text \<open>The same call on inputs that are resolved already.\<close>

definition resolved_tx :: Transaction where
  "resolved_tx =
     example_tx\<lparr>inputs :=
       [\<lparr>index = 0, val = JObject (ImmOrOwned (Some \<lparr>objectId = ''0x5'', version = 3, digest = ''d''\<rparr>))\<rparr>,
        \<lparr>index = 1, val = JPure [100]\<rparr>]\<rparr>"

text \<open>
  The strings of decimal digits, for the strings \<^verbatim>\<open>BigInt\<close> accepts, and a command schema
  that knows Move calls and the command \<open>SplitCoin\<close>.
\<close>

definition example_isCommand :: "TransactionCommand \<Rightarrow> bool" where
  "example_isCommand c = (case c of MoveCall m \<Rightarrow> True | Command k fs \<Rightarrow> k = ''SplitCoin'')"

definition no_value_tx :: Transaction where
  "no_value_tx = example_tx\<lparr>inputs := [\<lparr>index = 0, val = JUndefined\<rparr>]\<rparr>"

definition decimal :: "string \<Rightarrow> bool" where
  "decimal s = (s \<noteq> [] \<and> list_all (\<lambda>c. c \<in> set ''0123456789'') s)"

text \<open>
  A Move call on one resolved and one raw input, and the end-to-end example with its first
  input resolved beforehand.
\<close>

definition mixed_tx :: Transaction where
  "mixed_tx =
     example_tx\<lparr>inputs := [\<lparr>index = 0, val = JPure [1]\<rparr>, \<lparr>index = 1, val = JNumber 7\<rparr>],
                commands := [MoveCall \<lparr>target = (''pkg'', ''math'', ''add''), typeArguments = [],
                                       arguments = [Input 0, Input 1]\<rparr>]\<rparr>"

definition half_resolved_tx :: Transaction where
  "half_resolved_tx =
     example_tx\<lparr>inputs :=
       [\<lparr>index = 0, val = JObject (ImmOrOwned (Some \<lparr>objectId = ''0x5'', version = 3, digest = ''d''\<rparr>))\<rparr>,
        \<lparr>index = 1, val = JNumber 100\<rparr>]\<rparr>"

definition no_budget_tx :: Transaction where
  "no_budget_tx = example_tx\<lparr>gasConfig := example_gas\<lparr>budget := None\<rparr>\<rparr>"

definition split_call :: "CommandArgument list \<Rightarrow> MoveCallCommand" where
  "split_call args = \<lparr>target = (''pkg'', ''pay'', ''split''), typeArguments = [], arguments = args\<rparr>"

text \<open>
  Two object inputs, the first shared; an input whose object does not exist; a builder
  whose one input no command uses.
\<close>

definition two_objects_tx :: Transaction where
  "two_objects_tx =
     example_tx\<lparr>inputs := [\<lparr>index = 0, val = JString ''0x6''\<rparr>, \<lparr>index = 1, val = JString ''0x5''\<rparr>,
                           \<lparr>index = 2, val = JNumber 100\<rparr>],
                commands := [Command ''SplitCoin'' [(''coin'', Single (Input 0)), (''amount'', Single (Input 2))],
                             Command ''SplitCoin'' [(''coin'', Single (Input 1)), (''amount'', Single (Input 2))]]\<rparr>"

definition missing_object_tx :: Transaction where
  "missing_object_tx =
     example_tx\<lparr>inputs := [\<lparr>index = 0, val = JString ''0x404''\<rparr>, \<lparr>index = 1, val = JNumber 100\<rparr>],
                commands := [Command ''SplitCoin'' [(''coin'', Single (Input 0)), (''amount'', Single (Input 1))]]\<rparr>"

definition dangling_tx :: "js_value \<Rightarrow> Transaction" where
  "dangling_tx v =
     example_tx\<lparr>gasConfig := example_gas\<lparr>price := Some ''1''\<rparr>, inputs := [\<lparr>index = 0, val = v\<rparr>], commands := []\<rparr>"

text \<open>The states in which the queue of these builders has been filled.\<close>

definition two_objects_queued :: build_state where
  "two_objects_queued =
     \<lparr>tx = two_objects_tx\<lparr>gasConfig := example_gas\<lparr>price := Some ''1000''\<rparr>,
                            inputs := [\<lparr>index = 0, val = JString ''0x6''\<rparr>, \<lparr>index = 1, val = JString ''0x5''\<rparr>,
                                       \<lparr>index = 2, val = JPure [100]\<rparr>]\<rparr>,
      moveModulesToResolve = [],
      objectsToResolve = [(''0x6'', 0), (''0x5'', 1)],
      calls = [CallGetReferenceGasPrice]\<rparr>"

definition missing_object_queued :: build_state where
  "missing_object_queued =
     \<lparr>tx = missing_object_tx\<lparr>gasConfig := example_gas\<lparr>price := Some ''1000''\<rparr>,
                            inputs := [\<lparr>index = 0, val = JString ''0x404''\<rparr>, \<lparr>index = 1, val = JPure [100]\<rparr>]\<rparr>,
      moveModulesToResolve = [],
      objectsToResolve = [(''0x404'', 0)],
      calls = [CallGetReferenceGasPrice]\<rparr>"

text \<open>Two states of a build with the same inputs, all of them resolved.\<close>

definition same_resolved_inputs :: "build_state \<Rightarrow> build_state \<Rightarrow> bool" where
  "same_resolved_inputs s0 s =
     (inputs (tx s) = inputs (tx s0) \<and> list_all resolved (inputs (tx s0)))"

section \<open>Properties\<close>

lemmas example_defs =
  no_value_tx_def two_objects_tx_def missing_object_tx_def dangling_tx_def two_objects_queued_def
  missing_object_queued_def
  example_helpers_def example_provider_def example_tx_def example_gas_def example_schema_def
  resolved_tx_def lenient_helpers_def mixed_tx_def half_resolved_tx_def no_budget_tx_def
  split_call_def

lemmas build_defs =
  build_def validate_def falsy_def andThen_def fillQueue_def finish_def initial_state_def
  fillGasPrice_def expectProvider_def external_def log_calls_def set_price_def scanCommand_def
  scanField_def encodeArgument_def encodeInput_def
  resolveMoveCalls_def resolveMoveCall_def callerParameters_def hasTxContext_def resolveParam_def
  resolveObjectParam_def resolvePureParam_def inputAt_def inputKeys_def Inputs_Pure_def set_input_value_def fetchMoveFunction_def
  moveCallRequest_def resolveObjects_def resolvedObject_def Inputs_ObjectRef_def
  Inputs_SharedObjectRef_def assemble_def transactionData_def

subsection \<open>Loops\<close>


subsection \<open>Snapshots\<close>

lemma resolved_provided: "resolved inp \<Longrightarrow> provided inp"
  by (cases "val inp" rule: is_BuilderCallArg.cases) (simp_all add: resolved_def provided_def)

lemma throughJson_resolved: "is_BuilderCallArg v \<Longrightarrow> throughJson v = v"
  by (cases v) simp_all

lemma map_throughJson_resolved:
  "list_all resolved ins \<Longrightarrow> map (\<lambda>inp. inp\<lparr>val := throughJson (val inp)\<rparr>) ins = ins"
  by (induction ins) (simp_all add: resolved_def throughJson_resolved)

text \<open>The other two ways in which \<^verbatim>\<open>serialize\<close> fails: a command that fits no schema, a BigInt.\<close>

lemma serialize_refuses:
  "serialize decimal example_isCommand (resolved_tx\<lparr>commands := [Command ''Bogus'' []]\<rparr>)
     = Inl NotSerializedTransactionBuilder
   \<and> serialize decimal example_isCommand (example_tx\<lparr>inputs := [\<lparr>index = 0, val = JBigInt 1\<rparr>]\<rparr>)
     = Inl TypeError"
  by (simp add: serialize_def JSON_stringify_def is_SerializedTransactionBuilder_def
      is_GasConfig_def StringEncodedBigint_def decimal_def example_isCommand_def example_defs)

text \<open>
  What does survive the round trip of a builder with resolved inputs: the inputs, the
  commands and the gas config. The sender and the expiration come back absent.
\<close>

lemma resolved_jsonable: "resolved inp \<Longrightarrow> jsonable inp"
  by (cases "val inp" rule: is_BuilderCallArg.cases) (simp_all add: resolved_def jsonable_def)

lemma provided_has_value: "provided inp \<Longrightarrow> has_value inp"
  by (cases "val inp") (simp_all add: provided_def has_value_def)

text \<open>What \<^verbatim>\<open>serialize\<close> returns once every input is provided.\<close>

lemma serialize_of_provided:
  assumes "list_all provided (inputs t)"
  shows "serialize bigInt isCommand t =
     (if list_all isCommand (commands t) \<and> is_GasConfig bigInt (gasConfig t) then
        (if list_all jsonable (inputs t) then
           Inr (JsonText
                 \<lparr>snap_version = 1, snap_sender = None, snap_expiration = None,
                  snap_inputs = map (\<lambda>inp. inp\<lparr>val := throughJson (val inp)\<rparr>) (inputs t),
                  snap_commands = commands t, snap_gasConfig = gasConfig t\<rparr>)
         else Inl TypeError)
      else Inl NotSerializedTransactionBuilder)"
proof -
  have p: "list_all (\<lambda>inp. truthy (val inp)) (inputs t)"
    using assms by (simp add: provided_def[abs_def])
  have j: "list_all (\<lambda>inp. \<not> isBigInt (val inp)) (inputs t) = list_all jsonable (inputs t)"
    by (simp add: jsonable_def[abs_def])
  show ?thesis
    using p j
    by (simp add: serialize_def JSON_stringify_def is_SerializedTransactionBuilder_def Let_def)
qed

lemma serialize_not_provided:
  "\<not> list_all provided (inputs t) \<Longrightarrow> serialize bigInt isCommand t = Inl InputValuesMustBeProvided"
  by (simp add: serialize_def Let_def provided_def[abs_def])

text \<open>
  What does survive the round trip of a builder with resolved inputs: the inputs, the
  commands and the gas config. The sender and the expiration come back absent.
\<close>

lemma restore_serialized_resolved:
  assumes "list_all resolved (inputs t)" and "list_all isCommand (commands t)"
    and "is_GasConfig bigInt (gasConfig t)"
  shows "restore_serialized bigInt isCommand t = Inr (t\<lparr>sender := None, expiration := None\<rparr>)"
proof -
  have p: "list_all provided (inputs t)"
    using assms(1) by (auto simp: list_all_iff resolved_provided)
  have j: "list_all jsonable (inputs t)"
    using assms(1) by (auto simp: list_all_iff resolved_jsonable)
  show ?thesis
    using serialize_of_provided[OF p, of bigInt isCommand] j assms(2,3)
      map_throughJson_resolved[OF assms(1)]
    by (simp add: restore_serialized_def from_serialized_def is_SerializedTransactionBuilder_def)
qed

text \<open>
  C1 (snapshot round trip). The claim asks that restoring a serialized builder with resolved
  inputs gives back its inputs, commands, gas config, sender and expiration. The document
  that \<^verbatim>\<open>serialize\<close> writes has no sender and no expiration, although the schema has both
  fields and \<^verbatim>\<open>from\<close> reads both: a builder with resolved inputs, the sender \<open>S\<close> and
  the expiration epoch 7 is restored without sender and without expiration.
\<close>

theorem restore_loses_sender:
  "restore_serialized decimal example_isCommand (resolved_tx\<lparr>expiration := Some (Epoch 7)\<rparr>)
     = Inr (resolved_tx\<lparr>sender := None, expiration := None\<rparr>)
   \<and> sender (resolved_tx\<lparr>expiration := Some (Epoch 7)\<rparr>) = Some ''S''
   \<and> expiration (resolved_tx\<lparr>expiration := Some (Epoch 7)\<rparr>) = Some (Epoch 7)
   \<and> list_all resolved (inputs (resolved_tx\<lparr>expiration := Some (Epoch 7)\<rparr>))"
  by (simp add: restore_serialized_def serialize_def from_serialized_def JSON_stringify_def
        is_SerializedTransactionBuilder_def is_GasConfig_def StringEncodedBigint_def decimal_def
        example_isCommand_def example_defs resolved_def)

text \<open>
  C2 as stated fails: the end-to-end example holds the raw string \<open>0x5\<close> and the raw number
  100, neither of them resolved, and \<^verbatim>\<open>serialize\<close> succeeds on it.
\<close>

theorem serialize_counterexample:
  "serialize decimal example_isCommand example_tx
     = Inr (JsonText \<lparr>snap_version = 1, snap_sender = None, snap_expiration = None,
                      snap_inputs = inputs example_tx, snap_commands = commands example_tx,
                      snap_gasConfig = example_gas\<rparr>)
   \<and> \<not> list_all resolved (inputs example_tx)"
  by (simp add: serialize_def example_defs provided_def resolved_def JSON_stringify_def
      is_SerializedTransactionBuilder_def is_GasConfig_def StringEncodedBigint_def decimal_def
      example_isCommand_def)

text \<open>
  C2, amended (when serialize succeeds). \<^verbatim>\<open>serialize\<close> asks that every input was given a
  value, not that the value is resolved. When some input has no value, it fails with the
  "all input values must be provided" error. When every input holds a resolved value, and
  the commands and the gas config fit the schema of the document, it succeeds and the
  document holds the inputs as they are. It also succeeds on raw values that are provided
  and that JSON text can hold. And it succeeds only when every input has a value and the
  commands and the gas config fit the schema.
\<close>

theorem serialize_provided:
  "(\<not> list_all has_value (inputs t)
      \<longrightarrow> serialize bigInt isCommand t = Inl InputValuesMustBeProvided)
   \<and> (list_all resolved (inputs t) \<and> list_all isCommand (commands t)
        \<and> is_GasConfig bigInt (gasConfig t)
      \<longrightarrow> serialize bigInt isCommand t
            = Inr (JsonText \<lparr>snap_version = 1, snap_sender = None, snap_expiration = None,
                             snap_inputs = inputs t, snap_commands = commands t,
                             snap_gasConfig = gasConfig t\<rparr>))
   \<and> (list_all provided (inputs t) \<and> list_all jsonable (inputs t)
        \<and> list_all isCommand (commands t) \<and> is_GasConfig bigInt (gasConfig t)
      \<longrightarrow> (\<exists>s. serialize bigInt isCommand t = Inr s))
   \<and> ((\<exists>s. serialize bigInt isCommand t = Inr s)
      \<longrightarrow> list_all has_value (inputs t) \<and> list_all isCommand (commands t)
            \<and> is_GasConfig bigInt (gasConfig t))"
proof -
  have a: "\<not> list_all has_value (inputs t)
      \<longrightarrow> serialize bigInt isCommand t = Inl InputValuesMustBeProvided"
  proof
    assume "\<not> list_all has_value (inputs t)"
    then have "\<not> list_all provided (inputs t)"
      using provided_has_value by (auto simp: list_all_iff)
    then show "serialize bigInt isCommand t = Inl InputValuesMustBeProvided"
      by (rule serialize_not_provided)
  qed
  have b: "list_all resolved (inputs t) \<and> list_all isCommand (commands t)
        \<and> is_GasConfig bigInt (gasConfig t)
      \<longrightarrow> serialize bigInt isCommand t
            = Inr (JsonText \<lparr>snap_version = 1, snap_sender = None, snap_expiration = None,
                             snap_inputs = inputs t, snap_commands = commands t,
                             snap_gasConfig = gasConfig t\<rparr>)"
  proof
    assume h: "list_all resolved (inputs t) \<and> list_all isCommand (commands t)
        \<and> is_GasConfig bigInt (gasConfig t)"
    then have p: "list_all provided (inputs t)" and j: "list_all jsonable (inputs t)"
      by (auto simp: list_all_iff resolved_provided resolved_jsonable)
    have m: "map (\<lambda>inp. inp\<lparr>val := throughJson (val inp)\<rparr>) (inputs t) = inputs t"
      using h by (simp add: map_throughJson_resolved)
    show "serialize bigInt isCommand t
          = Inr (JsonText \<lparr>snap_version = 1, snap_sender = None, snap_expiration = None,
                           snap_inputs = inputs t, snap_commands = commands t,
                           snap_gasConfig = gasConfig t\<rparr>)"
      using serialize_of_provided[OF p, of bigInt isCommand] j h m by simp
  qed
  have c: "list_all provided (inputs t) \<and> list_all jsonable (inputs t)
        \<and> list_all isCommand (commands t) \<and> is_GasConfig bigInt (gasConfig t)
      \<longrightarrow> (\<exists>s. serialize bigInt isCommand t = Inr s)"
  proof
    assume h: "list_all provided (inputs t) \<and> list_all jsonable (inputs t)
        \<and> list_all isCommand (commands t) \<and> is_GasConfig bigInt (gasConfig t)"
    then have p: "list_all provided (inputs t)" by simp
    show "\<exists>s. serialize bigInt isCommand t = Inr s"
      using serialize_of_provided[OF p, of bigInt isCommand] h by simp
  qed
  have d: "(\<exists>s. serialize bigInt isCommand t = Inr s)
      \<longrightarrow> list_all has_value (inputs t) \<and> list_all isCommand (commands t)
            \<and> is_GasConfig bigInt (gasConfig t)"
  proof
    assume s: "\<exists>s. serialize bigInt isCommand t = Inr s"
    have p: "list_all provided (inputs t)"
    proof (rule ccontr)
      assume "\<not> list_all provided (inputs t)"
      then show False using serialize_not_provided[of t bigInt isCommand] s by simp
    qed
    have h: "list_all has_value (inputs t)"
      using p by (auto simp: list_all_iff provided_has_value)
    have "list_all isCommand (commands t) \<and> is_GasConfig bigInt (gasConfig t)"
      using serialize_of_provided[OF p, of bigInt isCommand] s by (auto split: if_splits)
    then show "list_all has_value (inputs t) \<and> list_all isCommand (commands t)
            \<and> is_GasConfig bigInt (gasConfig t)"
      using h by simp
  qed
  show ?thesis using a b c d by blast
qed

theorem serialize_provided_witness:
  "\<not> list_all has_value (inputs no_value_tx)
   \<and> serialize decimal example_isCommand no_value_tx = Inl InputValuesMustBeProvided
   \<and> list_all resolved (inputs resolved_tx) \<and> list_all example_isCommand (commands resolved_tx)
   \<and> is_GasConfig decimal (gasConfig resolved_tx)
   \<and> serialize decimal example_isCommand resolved_tx
        = Inr (JsonText \<lparr>snap_version = 1, snap_sender = None, snap_expiration = None,
                         snap_inputs = inputs resolved_tx, snap_commands = commands resolved_tx,
                         snap_gasConfig = gasConfig resolved_tx\<rparr>)
   \<and> list_all provided (inputs example_tx) \<and> list_all jsonable (inputs example_tx)
   \<and> (\<exists>s. serialize decimal example_isCommand example_tx = Inr s)
   \<and> list_all has_value (inputs example_tx)"
proof -
  have 1: "\<not> list_all has_value (inputs no_value_tx)"
    by (simp add: no_value_tx_def has_value_def)
  have 2: "list_all resolved (inputs resolved_tx) \<and> list_all example_isCommand (commands resolved_tx)
        \<and> is_GasConfig decimal (gasConfig resolved_tx)"
    by (simp add: example_defs resolved_def example_isCommand_def is_GasConfig_def
        StringEncodedBigint_def decimal_def)
  have 3: "list_all provided (inputs example_tx) \<and> list_all jsonable (inputs example_tx)
        \<and> list_all example_isCommand (commands example_tx) \<and> is_GasConfig decimal (gasConfig example_tx)"
    by (simp add: example_defs provided_def jsonable_def example_isCommand_def is_GasConfig_def
        StringEncodedBigint_def decimal_def)
  show ?thesis
    using 1 2 3 serialize_provided[of no_value_tx decimal example_isCommand]
      serialize_provided[of resolved_tx decimal example_isCommand]
      serialize_provided[of example_tx decimal example_isCommand]
    by blast
qed

subsection \<open>Result references\<close>

lemma nestedResultFor_fst:
  "cache_ok r \<Longrightarrow> fst (nestedResultFor r k) = NestedResult (resultIndexOf (baseResult r)) k"
  by (auto simp: cache_ok_def nestedResultFor_def Let_def split: option.splits)

lemma nestedResultFor_cache:
  "cache_ok r \<Longrightarrow> cache_ok (snd (nestedResultFor r k))"
  by (auto simp: cache_ok_def nestedResultFor_def Let_def split: option.splits)

lemma nestedResultFor_base:
  "baseResult (snd (nestedResultFor r k)) = baseResult r"
  by (auto simp: nestedResultFor_def Let_def split: option.splits)

lemma proxy_get_snd:
  "snd (proxy_get parseInt r p) = r \<or> (\<exists>k. snd (proxy_get parseInt r p) = snd (nestedResultFor r k))"
proof (cases p)
  case (Key key)
  show ?thesis
  proof (cases "in_target key")
    case True
    then show ?thesis using Key by (simp add: proxy_get_def)
  next
    case False
    show ?thesis
    proof (cases "parseInt key")
      case None
      then show ?thesis using Key False by (simp add: proxy_get_def)
    next
      case (Some n)
      show ?thesis
      proof (cases "n < 0")
        case True
        then show ?thesis using Key False Some by (simp add: proxy_get_def)
      next
        case neg: False
        have "snd (proxy_get parseInt r p) = snd (nestedResultFor r (nat n))"
          using Key False Some neg by (simp add: proxy_get_def split: prod.splits)
        then show ?thesis by blast
      qed
    qed
  qed
qed (simp_all add: proxy_get_def)

lemma proxy_get_ok:
  "cache_ok r \<Longrightarrow> cache_ok (snd (proxy_get parseInt r p))"
  using proxy_get_snd[of parseInt r p] nestedResultFor_cache[of r] by auto

lemma proxy_get_base:
  "baseResult (snd (proxy_get parseInt r p)) = baseResult r"
  using proxy_get_snd[of parseInt r p] nestedResultFor_base[of r] by auto

lemma proxy_gets_ok:
  "cache_ok r \<Longrightarrow> cache_ok (proxy_gets parseInt r ps)"
  by (induction ps arbitrary: r) (simp_all add: proxy_get_ok)

lemma proxy_gets_base:
  "baseResult (proxy_gets parseInt r ps) = baseResult r"
  by (induction ps arbitrary: r) (simp_all add: proxy_get_base)

lemma create_ok: "cache_ok (createTransactionResult i)"
  by (simp add: cache_ok_def createTransactionResult_def)

lemma iterate_ok:
  "cache_ok r \<Longrightarrow> fst (iterate r i n) = map (NestedResult (resultIndexOf (baseResult r))) [i..<i + n]"
proof (induction n arbitrary: r i)
  case 0
  then show ?case by simp
next
  case (Suc n)
  obtain v r' where nr: "nestedResultFor r i = (v, r')" by (cases "nestedResultFor r i")
  have v: "v = NestedResult (resultIndexOf (baseResult r)) i"
    using nestedResultFor_fst[OF Suc.prems, of i] nr by simp
  have ok: "cache_ok r'" using nestedResultFor_cache[OF Suc.prems, of i] nr by simp
  have base: "baseResult r' = baseResult r" using nestedResultFor_base[of r i] nr by simp
  have "fst (iterate r' (Suc i) n) = map (NestedResult (resultIndexOf (baseResult r))) [Suc i..<Suc i + n]"
    using Suc.IH[OF ok, of "Suc i"] base by simp
  moreover have "[i..<i + Suc n] = i # [Suc i..<Suc i + n]"
    by (simp add: upt_conv_Cons)
  ultimately show ?case using nr v by (simp del: upt_Suc split: prod.splits) auto
qed

lemma nestedResultFor_stores:
  "cache_ok r \<Longrightarrow> nestedResults (snd (nestedResultFor r k)) k
                   = Some (NestedResult (resultIndexOf (baseResult r)) k)"
  by (auto simp: cache_ok_def nestedResultFor_def Let_def split: option.splits)

lemma nestedResultFor_memoized:
  "nestedResults r k = Some v \<Longrightarrow> nestedResultFor r k = (v, r)"
  by (simp add: nestedResultFor_def)

lemma nestedResultFor_keeps:
  "nestedResults r j = Some v \<Longrightarrow> nestedResults (snd (nestedResultFor r k)) j = Some v"
  by (auto simp: nestedResultFor_def Let_def split: option.splits)

lemma proxy_get_keeps:
  "nestedResults r j = Some v \<Longrightarrow> nestedResults (snd (proxy_get parseInt r p)) j = Some v"
  using proxy_get_snd[of parseInt r p] nestedResultFor_keeps[of r j v] by auto

lemma proxy_gets_keeps:
  "nestedResults r j = Some v \<Longrightarrow> nestedResults (proxy_gets parseInt r ps) j = Some v"
  by (induction ps arbitrary: r) (simp_all add: proxy_get_keeps)

lemma proxy_get_position:
  assumes "parseInt key = Some (int k)" and "\<not> in_target key"
  shows "proxy_get parseInt r (Key key)
           = (GotArgument (fst (nestedResultFor r k)), snd (nestedResultFor r k))"
  using assms by (cases "nestedResultFor r k") (simp add: proxy_get_def)

text \<open>
  C7 (nested results are stable and memoized). Take the result reference of command \<open>i\<close>
  after any sequence \<open>ps\<close> of earlier property reads. Reading a key that the platform
  parses as the position \<open>k\<close> returns \<open>NestedResult i k\<close>, however often and in whatever
  order positions were read before. The value is memoized: the cache of a fresh reference
  is empty, the read leaves \<open>NestedResult i k\<close> in the cache at \<open>k\<close>, the entry stays there
  through any later reads \<open>qs\<close>, and a repeated request then returns the cached entry
  and leaves the reference as it is (whatever a cache holds at \<open>k\<close> is what a request for
  \<open>k\<close> returns). Destructuring yields the nested results of the positions 0, 1, 2, ...;
  and the reference itself is \<open>Result i\<close>: its \<open>kind\<close> reads \<open>Result\<close> and its \<open>index\<close>
  reads \<open>i\<close>.
\<close>

theorem nested_result_stable:
  assumes "parseInt key = Some (int k)" and "\<not> in_target key"
  shows "fst (proxy_get parseInt (proxy_gets parseInt (createTransactionResult i) ps) (Key key))
           = GotArgument (NestedResult i k)
    \<and> nestedResults (createTransactionResult i) k = None
    \<and> nestedResults
         (snd (proxy_get parseInt (proxy_gets parseInt (createTransactionResult i) ps) (Key key))) k
           = Some (NestedResult i k)
    \<and> nestedResults
         (proxy_gets parseInt
            (snd (proxy_get parseInt (proxy_gets parseInt (createTransactionResult i) ps) (Key key)))
            qs) k
           = Some (NestedResult i k)
    \<and> proxy_get parseInt
         (proxy_gets parseInt
            (snd (proxy_get parseInt (proxy_gets parseInt (createTransactionResult i) ps) (Key key)))
            qs)
         (Key key)
           = (GotArgument (NestedResult i k),
              proxy_gets parseInt
                (snd (proxy_get parseInt (proxy_gets parseInt (createTransactionResult i) ps) (Key key)))
                qs)
    \<and> (\<forall>r v. nestedResults r k = Some v \<longrightarrow> nestedResultFor r k = (v, r))
    \<and> baseResult (proxy_gets parseInt (createTransactionResult i) ps) = Result i
    \<and> fst (proxy_get parseInt (proxy_gets parseInt (createTransactionResult i) ps) (Key ''kind''))
           = GotString ''Result''
    \<and> fst (proxy_get parseInt (proxy_gets parseInt (createTransactionResult i) ps) (Key ''index''))
           = GotNumber i
    \<and> fst (iterate (proxy_gets parseInt (createTransactionResult i) ps) 0 n) = map (NestedResult i) [0..<n]"
proof -
  let ?r = "proxy_gets parseInt (createTransactionResult i) ps"
  let ?r1 = "snd (proxy_get parseInt ?r (Key key))"
  let ?r2 = "proxy_gets parseInt ?r1 qs"
  have ok: "cache_ok ?r" by (rule proxy_gets_ok[OF create_ok])
  have base: "baseResult ?r = Result i"
    by (simp add: proxy_gets_base createTransactionResult_def)
  have g: "proxy_get parseInt ?r (Key key)
             = (GotArgument (fst (nestedResultFor ?r k)), snd (nestedResultFor ?r k))"
    using assms by (rule proxy_get_position)
  have a: "fst (proxy_get parseInt ?r (Key key)) = GotArgument (NestedResult i k)"
    using g nestedResultFor_fst[OF ok, of k] base by simp
  have m0: "nestedResults (createTransactionResult i) k = None"
    by (simp add: createTransactionResult_def)
  have m1: "nestedResults ?r1 k = Some (NestedResult i k)"
    using g nestedResultFor_stores[OF ok, of k] base by simp
  have m2: "nestedResults ?r2 k = Some (NestedResult i k)"
    by (rule proxy_gets_keeps[OF m1])
  have m3: "proxy_get parseInt ?r2 (Key key) = (GotArgument (NestedResult i k), ?r2)"
    using proxy_get_position[of parseInt key k ?r2] assms nestedResultFor_memoized[OF m2] by simp
  have m4: "\<forall>r v. nestedResults r k = Some v \<longrightarrow> nestedResultFor r k = (v, r)"
    by (simp add: nestedResultFor_memoized)
  have c: "fst (proxy_get parseInt ?r (Key ''kind'')) = GotString ''Result''"
    using base by (simp add: proxy_get_def in_target_def)
  have d: "fst (proxy_get parseInt ?r (Key ''index'')) = GotNumber i"
    using base by (simp add: proxy_get_def in_target_def)
  have e: "fst (iterate ?r 0 n) = map (NestedResult i) [0..<n]"
    using iterate_ok[OF ok, of 0 n] base by simp
  show ?thesis using a m0 m1 m2 m3 m4 base c d e by blast
qed

theorem nested_result_stable_witness:
  "fst (proxy_get (\<lambda>s. if s = ''2'' then Some 2 else None)
         (proxy_gets (\<lambda>s. if s = ''2'' then Some 2 else None) (createTransactionResult 4)
            [Key ''2'', Key ''2'', SymbolIterator])
         (Key ''2''))
     = GotArgument (NestedResult 4 2)
   \<and> fst (proxy_get (\<lambda>s. if s = ''2'' then Some 2 else None) (createTransactionResult 4) (Key ''2''))
     = GotArgument (NestedResult 4 2)
   \<and> nestedResults
        (snd (proxy_get (\<lambda>s. if s = ''2'' then Some 2 else None) (createTransactionResult 4)
               (Key ''2''))) 2
     = Some (NestedResult 4 2)
   \<and> nestedResults (createTransactionResult 4) 2 = None"
  using nested_result_stable[where parseInt = "\<lambda>s. if s = ''2'' then Some 2 else None"
      and key = "''2''" and k = 2 and i = 4 and ps = "[Key ''2'', Key ''2'', SymbolIterator]"
      and qs = "[]" and n = 0]
    nested_result_stable[where parseInt = "\<lambda>s. if s = ''2'' then Some 2 else None"
      and key = "''2''" and k = 2 and i = 4 and ps = "[]" and qs = "[]" and n = 0]
  by (simp add: in_target_def objectPrototypeKeys_def)

subsection \<open>Adding inputs and commands\<close>

lemma apply_addition_inputs:
  "\<exists>new. inputs (apply_addition t a) = inputs t @ new \<and> commands (apply_addition t a) = commands t @ (case a of AddCommand c \<Rightarrow> [c] | _ \<Rightarrow> [])
     \<and> map index new = [length (inputs t)..<length (inputs t) + length new]"
  by (cases a) (simp_all add: input_def add_def Let_def)

lemma additions_append:
  "\<exists>newi newc. inputs (additions ops t) = inputs t @ newi
      \<and> commands (additions ops t) = commands t @ newc
      \<and> map index newi = [length (inputs t)..<length (inputs t) + length newi]"
  unfolding additions_def
proof (induction ops arbitrary: t)
  case Nil
  then show ?case by simp
next
  case (Cons a ops)
  obtain n1 c1 where a1: "inputs (apply_addition t a) = inputs t @ n1"
    and a2: "commands (apply_addition t a) = commands t @ c1"
    and a3: "map index n1 = [length (inputs t)..<length (inputs t) + length n1]"
    using apply_addition_inputs[of t a] by blast
  obtain n2 c2 where b1: "inputs (foldl apply_addition (apply_addition t a) ops) = inputs (apply_addition t a) @ n2"
    and b2: "commands (foldl apply_addition (apply_addition t a) ops) = commands (apply_addition t a) @ c2"
    and b3: "map index n2 = [length (inputs (apply_addition t a))..<length (inputs (apply_addition t a)) + length n2]"
    using Cons.IH[of "apply_addition t a"] by blast
  have "map index (n1 @ n2) = [length (inputs t)..<length (inputs t) + length (n1 @ n2)]"
  proof -
    have "[length (inputs t)..<length (inputs t) + length n1 + length n2]
        = [length (inputs t)..<length (inputs t) + length n1]
          @ [length (inputs t) + length n1..<length (inputs t) + length n1 + length n2]"
      by (rule upt_add_eq_append) simp
    then show ?thesis using a3 b3 a1 by (simp add: add.assoc)
  qed
  then show ?case using a1 a2 b1 b2 by auto
qed

text \<open>
  C10 (append-only stability). \<^verbatim>\<open>input\<close> returns the input it stored, whose index is the
  length the list had, and \<^verbatim>\<open>add\<close> returns a result reference bound to the length the
  command list had. Whatever additions \<open>ops\<close> follow, that input and that command stay at
  that position; the inputs and commands a builder has are a prefix of those it has after
  any additions (nothing is reordered or deleted); and in a builder grown from the empty
  one every input carries its own position as index (no index is used twice).
\<close>

theorem append_only:
  "fst (input v t) = \<lparr>index = length (inputs t), val = v\<rparr>
   \<and> inputs (additions ops (snd (input v t))) ! length (inputs t) = fst (input v t)
   \<and> baseResult (fst (add c t)) = Result (length (commands t))
   \<and> commands (additions ops (snd (add c t))) ! length (commands t) = c
   \<and> take (length (inputs t)) (inputs (additions ops t)) = inputs t
   \<and> take (length (commands t)) (commands (additions ops t)) = commands t
   \<and> map index (inputs (additions ops newTransaction))
       = [0..<length (inputs (additions ops newTransaction))]"
proof -
  obtain ni nc where i: "inputs (additions ops t) = inputs t @ ni"
    and c: "commands (additions ops t) = commands t @ nc"
    using additions_append[of ops t] by blast
  obtain ni1 where i1: "inputs (additions ops (snd (input v t))) = inputs (snd (input v t)) @ ni1"
    using additions_append[of ops "snd (input v t)"] by blast
  obtain nc2 where c2: "commands (additions ops (snd (add c t))) = commands (snd (add c t)) @ nc2"
    using additions_append[of ops "snd (add c t)"] by blast
  obtain ni0 where i0: "inputs (additions ops newTransaction) = inputs newTransaction @ ni0"
    and m0: "map index ni0 = [length (inputs newTransaction)..<length (inputs newTransaction) + length ni0]"
    using additions_append[of ops newTransaction] by blast
  have a: "fst (input v t) = \<lparr>index = length (inputs t), val = v\<rparr>"
    by (simp add: input_def Let_def)
  have b: "inputs (additions ops (snd (input v t))) ! length (inputs t) = fst (input v t)"
    using i1 by (simp add: input_def Let_def nth_append)
  have d: "baseResult (fst (add c t)) = Result (length (commands t))"
    by (simp add: add_def Let_def createTransactionResult_def)
  have e: "commands (additions ops (snd (add c t))) ! length (commands t) = c"
    using c2 by (simp add: add_def Let_def nth_append)
  have f: "take (length (inputs t)) (inputs (additions ops t)) = inputs t" using i by simp
  have g: "take (length (commands t)) (commands (additions ops t)) = commands t" using c by simp
  have k: "map index (inputs (additions ops newTransaction))
       = [0..<length (inputs (additions ops newTransaction))]"
    using i0 m0 by (simp add: newTransaction_def)
  show ?thesis using a b d e f g k by blast
qed


subsection \<open>Build\<close>

text \<open>
  C9 (fail-fast validation). When the sender, the gas budget or the gas payment is absent,
  \<^verbatim>\<open>build\<close> fails with the error of a missing field, whatever the provider is, the log of
  external calls is empty and the builder is as it was.
\<close>

theorem build_fails_fast:
  assumes "sender t = None \<or> budget (gasConfig t) = None \<or> payment (gasConfig t) = None"
  shows "fst (build h provider t) \<in> {Inl MissingGasBudget, Inl MissingGasPayment, Inl MissingSender}
       \<and> calls (snd (build h provider t)) = []
       \<and> tx (snd (build h provider t)) = t"
proof -
  have "\<exists>e. validate t = Some e \<and> e \<in> {MissingGasBudget, MissingGasPayment, MissingSender}"
    using assms by (auto simp: validate_def falsy_def)
  then obtain e where v: "validate t = Some e"
    and e: "e \<in> {MissingGasBudget, MissingGasPayment, MissingSender}"
    by blast
  have "build h provider t = (Inl e, initial_state t)"
    using v by (simp add: build_def)
  then show ?thesis using e by (auto simp: initial_state_def)
qed

theorem build_fails_fast_witness:
  "budget (gasConfig no_budget_tx) = None
   \<and> fst (build example_helpers (Some example_provider) no_budget_tx) = Inl MissingGasBudget
   \<and> calls (snd (build example_helpers (Some example_provider) no_budget_tx)) = []"
  using build_fails_fast[of no_budget_tx example_helpers "Some example_provider"]
  by (simp add: build_def validate_def falsy_def example_defs initial_state_def)





text \<open>
  Whenever the Move-call stage gets past an argument whose input is resolved, it has
  written a new encoding over the resolved value.
\<close>

lemma resolveParam_resolved_input:
  assumes "i < length (inputs (tx st))"
    and "is_BuilderCallArg (val (inputs (tx st) ! i))"
    and "fst (resolveParam h (param, Input i) st) = Inr ()"
  shows "\<exists>serType bytes.
           getPureSerializationType h param (val (inputs (tx st) ! i)) = Inr (Some serType)
           \<and> pureSer h serType (val (inputs (tx st) ! i)) = Inr bytes
           \<and> snd (resolveParam h (param, Input i) st) = set_input_value i (JPure bytes) st"
proof -
  let ?v = "val (inputs (tx st) ! i)"
  have ns: "\<And>s. ?v \<noteq> JString s" using assms(2) by auto
  have o: "fst (resolveObjectParam h param i ?v st) \<noteq> Inr ()"
    using ns by (cases ?v) (auto simp: resolveObjectParam_def)
  show ?thesis
  proof (cases "getPureSerializationType h param ?v")
    case (Inl msg)
    then show ?thesis using assms(1,3)
      by (simp add: resolveParam_def inputAt_def inputKeys_def external_def)
  next
    case (Inr serType)
    show ?thesis
    proof (cases serType)
      case None
      then show ?thesis using assms(1,3) Inr o
        by (simp add: resolveParam_def inputAt_def inputKeys_def external_def)
    next
      case (Some ty)
      show ?thesis
      proof (cases "ty = []")
        case True
        then show ?thesis using assms(1,3) Inr Some o
          by (simp add: resolveParam_def inputAt_def inputKeys_def external_def)
      next
        case False
        have r: "resolveParam h (param, Input i) st = resolvePureParam h ty i ?v st"
          using assms(1) Inr Some False
          by (simp add: resolveParam_def inputAt_def inputKeys_def external_def)
        show ?thesis
        proof (cases "pureSer h ty ?v")
          case (Inl msg)
          then show ?thesis using assms(3) r
            by (simp add: resolvePureParam_def Inputs_Pure_def external_def)
        next
          case (Inr bytes)
          then have "snd (resolveParam h (param, Input i) st) = set_input_value i (JPure bytes) st"
            using r by (simp add: resolvePureParam_def Inputs_Pure_def external_def)
          then show ?thesis using \<open>getPureSerializationType h param ?v = Inr serType\<close> Some Inr
            by simp
        qed
      qed
    qed
  qed
qed

text \<open>
  C3 (a resolved input is left alone). The scan of the well-known encodings skips a
  resolved input (\<open>encodeInput_resolved\<close> below). The Move-call stage tests the input
  object, not its value, against the call-argument schema (line 411), so the test never
  holds and a resolved input is handled like a raw one. In \<open>mixed_tx\<close> the first input holds the
  resolved value \<open>Pure [1]\<close>; with a codec that encodes what it is given, the build
  succeeds and leaves the re-encoding \<open>Pure [9]\<close> in that input; with the strict codec the
  build fails in the codec. In the end-to-end example with its object input resolved
  beforehand, the build fails asking for an object id string.
\<close>

theorem move_call_reencodes_resolved_input:
  "resolved (inputs mixed_tx ! 0)
   \<and> val (inputs mixed_tx ! 0) = JPure [1]
   \<and> fst (build lenient_helpers (Some example_provider) mixed_tx) = Inr [1, 1]
   \<and> val (inputs (tx (snd (build lenient_helpers (Some example_provider) mixed_tx))) ! 0) = JPure [9]
   \<and> fst (build example_helpers (Some example_provider) mixed_tx) = Inl (External ''not a number'')
   \<and> resolved (inputs half_resolved_tx ! 0)
   \<and> fst (build example_helpers (Some example_provider) half_resolved_tx)
       = Inl (ExpectObjectId (val (inputs half_resolved_tx ! 0)))"
  by (simp add: build_defs example_defs resolved_def)

subsection \<open>The queue of objects\<close>

lemma forEach_preserves:
  assumes "\<And>x s. P s \<Longrightarrow> P (snd (f x s))" and "P s"
  shows "P (snd (forEach f xs s))"
  using assms(2)
proof (induction xs arbitrary: s)
  case Nil
  then show ?case by simp
next
  case (Cons x xs)
  obtain r s' where fx: "f x s = (r, s')" by (cases "f x s")
  have ps': "P s'" using assms(1)[OF Cons.prems, of x] fx by simp
  show ?case
  proof (cases r)
    case (Inl e)
    then show ?thesis using fx ps' by simp
  next
    case (Inr u)
    then show ?thesis using fx Cons.IH[OF ps'] by simp
  qed
qed

lemma andThen_preserves:
  assumes "P (snd (f s))" and "\<And>x s'. P s' \<Longrightarrow> P (snd (g x s'))"
  shows "P (snd (andThen f g s))"
proof -
  obtain r s' where fs: "f s = (r, s')" by (cases "f s")
  then have "P s'" using assms(1) by simp
  then show ?thesis using fs assms(2) by (cases r) (simp_all add: andThen_def)
qed

lemma queue_ok_set_input_value: "queue_ok st \<Longrightarrow> queue_ok (set_input_value i v st)"
  by (simp add: queue_ok_def set_input_value_def)

lemma queue_ok_push:
  "queue_ok st \<Longrightarrow> i < length (inputs (tx st))
     \<Longrightarrow> queue_ok (st\<lparr>objectsToResolve := objectsToResolve st @ [(s, i)]\<rparr>)"
  by (simp add: queue_ok_def)

lemma queue_ok_log_calls: "queue_ok (log_calls cs st) = queue_ok st"
  by (simp add: queue_ok_def log_calls_def)

lemma queue_ok_set_price: "queue_ok (set_price p st) = queue_ok st"
  by (simp add: queue_ok_def set_price_def)

lemma encodeInput_queue_ok: "queue_ok st \<Longrightarrow> queue_ok (snd (encodeInput h wk i st))"
  by (auto simp: encodeInput_def Let_def queue_ok_set_input_value queue_ok_push
      split: WellKnownEncoding.splits js_value.splits sum.splits)

lemma encodeArgument_queue_ok: "queue_ok st \<Longrightarrow> queue_ok (snd (encodeArgument h wk a st))"
  by (cases a) (simp_all add: encodeArgument_def encodeInput_queue_ok)

lemma scanField_queue_ok: "queue_ok st \<Longrightarrow> queue_ok (snd (scanField h schema kv st))"
  using forEach_preserves[of queue_ok "encodeArgument h _", OF encodeArgument_queue_ok]
  by (auto simp: scanField_def encodeArgument_queue_ok split: option.splits field.splits)

lemma scanCommand_queue_ok: "queue_ok st \<Longrightarrow> queue_ok (snd (scanCommand h c st))"
  using forEach_preserves[of queue_ok "scanField h _", OF scanField_queue_ok]
  by (auto simp: scanCommand_def queue_ok_def split: TransactionCommand.splits sum.splits option.splits bool.splits)

lemma resolveParam_queue_ok: "queue_ok st \<Longrightarrow> queue_ok (snd (resolveParam h pa st))"
  by (auto simp: resolveParam_def resolveObjectParam_def resolvePureParam_def inputAt_def
      queue_ok_set_input_value queue_ok_push
      split: CommandArgument.splits option.splits sum.splits js_value.splits if_splits)

lemma resolveMoveCall_queue_ok: "queue_ok st \<Longrightarrow> queue_ok (snd (resolveMoveCall h n m st))"
  using forEach_preserves[of queue_ok "resolveParam h", OF resolveParam_queue_ok]
  by (auto simp: resolveMoveCall_def Let_def split: sum.splits)

lemma resolveMoveCalls_queue_ok: "queue_ok st \<Longrightarrow> queue_ok (snd (resolveMoveCalls h provider st))"
  using forEach_preserves[of queue_ok "\<lambda>m. resolveMoveCall h (_ m) m", OF resolveMoveCall_queue_ok]
  by (auto simp: resolveMoveCalls_def expectProvider_def queue_ok_log_calls split: option.splits)

lemma fillGasPrice_queue_ok: "queue_ok st \<Longrightarrow> queue_ok (snd (fillGasPrice provider st))"
  by (auto simp: fillGasPrice_def expectProvider_def queue_ok_log_calls queue_ok_set_price
      split: option.splits sum.splits)

lemma fillQueue_queue_ok: "queue_ok st \<Longrightarrow> queue_ok (snd (fillQueue h provider st))"
  unfolding fillQueue_def
  apply (rule andThen_preserves)
   apply (erule fillGasPrice_queue_ok)
  apply (rule andThen_preserves)
   apply (rule forEach_preserves)
    apply (erule scanCommand_queue_ok)
   apply assumption
  apply (erule resolveMoveCalls_queue_ok)
  done

lemma queue_ok_initial: "queue_ok (initial_state t)"
  by (simp add: queue_ok_def initial_state_def)

lemma writeObjects_succeeds:
  "length objects \<le> length q \<Longrightarrow> fst (writeObjects h objects q st) = Inr ()"
  by (induction h objects q st rule: writeObjects.induct) simp_all

lemma set_input_value_frame:
  "length (inputs (tx (set_input_value i v st))) = length (inputs (tx st))
   \<and> objectsToResolve (set_input_value i v st) = objectsToResolve st
   \<and> calls (set_input_value i v st) = calls st"
  by (simp add: set_input_value_def)

lemma set_input_value_other:
  "j \<noteq> i \<Longrightarrow> inputs (tx (set_input_value i v st)) ! j = inputs (tx st) ! j"
  by (simp add: set_input_value_def)

lemma set_input_value_same:
  "i < length (inputs (tx st)) \<Longrightarrow> val (inputs (tx (set_input_value i v st)) ! i) = v"
  by (simp add: set_input_value_def)

lemma writeObjects_frame:
  "length (inputs (tx (snd (writeObjects h objects q st)))) = length (inputs (tx st))
   \<and> objectsToResolve (snd (writeObjects h objects q st)) = objectsToResolve st
   \<and> calls (snd (writeObjects h objects q st)) = calls st"
  by (induction h objects q st rule: writeObjects.induct) (simp_all add: set_input_value_frame)

lemma writeObjects_untouched:
  "j \<notin> snd ` set (take (length objects) q)
     \<Longrightarrow> inputs (tx (snd (writeObjects h objects q st))) ! j = inputs (tx st) ! j"
  by (induction h objects q st rule: writeObjects.induct) (auto simp: set_input_value_other)

lemma writeObjects_positional:
  assumes "k < length objects" and "k < length q" and "q ! k = (oid, i)"
    and "i < length (inputs (tx st))"
    and "\<forall>k'. k < k' \<and> k' < length objects \<and> k' < length q \<longrightarrow> snd (q ! k') \<noteq> i"
  shows "val (inputs (tx (snd (writeObjects h objects q st))) ! i) = resolvedObject h oid (objects ! k)"
  using assms
proof (induction h objects q st arbitrary: k rule: writeObjects.induct)
  case (1 h q st)
  then show ?case by simp
next
  case (2 h object objects st)
  then show ?case by simp
next
  case (3 h object objects oid' i' q st)
  show ?case
  proof (cases k)
    case 0
    then have eq: "oid' = oid" "i' = i" using "3.prems"(3) by simp_all
    have later: "i \<notin> snd ` set (take (length objects) q)"
    proof
      assume "i \<in> snd ` set (take (length objects) q)"
      then obtain e where e: "e \<in> set (take (length objects) q)" and se: "snd e = i" by auto
      then obtain m where m: "m < length (take (length objects) q)" and em: "take (length objects) q ! m = e"
        by (auto simp: in_set_conv_nth)
      then have "m < length objects" "m < length q" "q ! m = e" by simp_all
      then have "snd (((oid', i') # q) ! Suc m) = i" using se by simp
      moreover have "0 < Suc m \<and> Suc m < length (object # objects) \<and> Suc m < length ((oid', i') # q)"
        using \<open>m < length objects\<close> \<open>m < length q\<close> by simp
      ultimately show False using "3.prems"(5) 0 by blast
    qed
    have "val (inputs (tx (snd (writeObjects h objects q (set_input_value i (resolvedObject h oid object) st)))) ! i)
        = val (inputs (tx (set_input_value i (resolvedObject h oid object) st)) ! i)"
      by (simp add: writeObjects_untouched[OF later])
    also have "\<dots> = resolvedObject h oid object"
      using "3.prems"(4) by (rule set_input_value_same)
    finally show ?thesis using 0 eq by simp
  next
    case (Suc k0)
    have a: "k0 < length objects" "k0 < length q" "q ! k0 = (oid, i)"
      using "3.prems"(1,2,3) Suc by simp_all
    have b: "i < length (inputs (tx (set_input_value i' (resolvedObject h oid' object) st)))"
      using "3.prems"(4) by (simp add: set_input_value_frame)
    have c: "\<forall>k'. k0 < k' \<and> k' < length objects \<and> k' < length q \<longrightarrow> snd (q ! k') \<noteq> i"
    proof (intro allI impI)
      fix k' assume h: "k0 < k' \<and> k' < length objects \<and> k' < length q"
      then have "k < Suc k' \<and> Suc k' < length (object # objects) \<and> Suc k' < length ((oid', i') # q)"
        using Suc by simp
      then have "snd (((oid', i') # q) ! Suc k') \<noteq> i" using "3.prems"(5) by blast
      then show "snd (q ! k') \<noteq> i" by simp
    qed
    show ?thesis using "3.IH"[OF a b c] Suc by simp
  qed
qed

lemma resolveInputs_unresolved:
  "i < length ins \<Longrightarrow> \<not> is_BuilderCallArg (val (ins ! i))
     \<Longrightarrow> \<exists>v. resolveInputs ins = Inl (NotBuilderCallArg v) \<and> \<not> is_BuilderCallArg v"
proof (induction ins arbitrary: i)
  case Nil
  then show ?case by simp
next
  case (Cons inp ins)
  show ?case
  proof (cases "is_BuilderCallArg (val inp)")
    case False
    then show ?thesis by simp
  next
    case True
    then obtain j where j: "i = Suc j" using Cons.prems(2) by (cases i) auto
    then obtain v where "resolveInputs ins = Inl (NotBuilderCallArg v)" "\<not> is_BuilderCallArg v"
      using Cons.IH[of j] Cons.prems by auto
    then show ?thesis using True by simp
  qed
qed

lemma assemble_state: "snd (assemble h st) = st"
  by (simp add: assemble_def split: sum.splits)

text \<open>The state a build leaves when the queue was filled and the provider answered the batch.\<close>

lemma build_after_batch:
  assumes "validate t = None"
    and "fillQueue h (Some p) (initial_state t) = (Inr (), st)"
    and "getObjectBatch p (map fst (objectsToResolve st)) = Inr objects"
    and "objects \<noteq> []" and "objectsToResolve st \<noteq> []"
  shows "build h (Some p) t =
     (case writeObjects h objects (objectsToResolve st)
             (log_calls [CallGetObjectBatch (map fst (objectsToResolve st))] st) of
        (Inl e, st') \<Rightarrow> (Inl e, st')
      | (Inr u, st') \<Rightarrow> assemble h st')"
  using assms
  by (simp add: build_def andThen_def finish_def resolveObjects_def expectProvider_def external_def
      log_calls_def split: prod.splits sum.splits)

lemma build_writes_object:
  assumes "validate t = None"
    and "fillQueue h (Some p) (initial_state t) = (Inr (), st)"
    and "getObjectBatch p (map fst (objectsToResolve st)) = Inr objects"
    and "k < length objects" and "k < length (objectsToResolve st)"
    and "objectsToResolve st ! k = (oid, i)"
    and "\<forall>k'. k < k' \<and> k' < length objects \<and> k' < length (objectsToResolve st)
           \<longrightarrow> snd (objectsToResolve st ! k') \<noteq> i"
  shows "i < length (inputs (tx (snd (build h (Some p) t))))
     \<and> val (inputs (tx (snd (build h (Some p) t))) ! i) = resolvedObject h oid (objects ! k)
     \<and> calls (snd (build h (Some p) t))
         = calls st @ [CallGetObjectBatch (map fst (objectsToResolve st))]"
proof -
  let ?q = "objectsToResolve st"
  let ?st = "log_calls [CallGetObjectBatch (map fst ?q)] st"
  let ?w = "writeObjects h objects ?q ?st"
  have ne: "objects \<noteq> []" "?q \<noteq> []" using assms(4,5) by auto
  have b: "build h (Some p) t =
     (case ?w of (Inl e, st') \<Rightarrow> (Inl e, st') | (Inr u, st') \<Rightarrow> assemble h st')"
    by (rule build_after_batch[OF assms(1,2,3) ne])
  have s: "snd (build h (Some p) t) = snd ?w"
    unfolding b by (cases ?w) (simp add: assemble_state split: sum.splits)
  have "queue_ok st"
    using fillQueue_queue_ok[OF queue_ok_initial, of h "Some p" t] assms(2) by simp
  then have i: "i < length (inputs (tx st))"
    using assms(5,6) by (auto simp: queue_ok_def list_all_length)
  have q': "objectsToResolve ?st = ?q" "inputs (tx ?st) = inputs (tx st)" "calls ?st = calls st @ [CallGetObjectBatch (map fst ?q)]"
    by (simp_all add: log_calls_def)
  have v: "val (inputs (tx (snd ?w)) ! i) = resolvedObject h oid (objects ! k)"
    using writeObjects_positional[of k objects ?q oid i ?st h] assms(4,5,6,7) i q' by simp
  have l: "length (inputs (tx (snd ?w))) = length (inputs (tx st))" "calls (snd ?w) = calls ?st"
    using writeObjects_frame[of h objects ?q ?st] q' by simp_all
  show ?thesis using s v l i q' by simp
qed

lemma build_unresolved_object:
  assumes "validate t = None"
    and "fillQueue h (Some p) (initial_state t) = (Inr (), st)"
    and "getObjectBatch p (map fst (objectsToResolve st)) = Inr objects"
    and "length objects \<le> length (objectsToResolve st)"
    and "k < length objects"
    and "\<forall>k'. k < k' \<and> k' < length objects \<longrightarrow> snd (objectsToResolve st ! k') \<noteq> snd (objectsToResolve st ! k)"
    and "\<not> is_BuilderCallArg (resolvedObject h (fst (objectsToResolve st ! k)) (objects ! k))"
  shows "\<exists>v. fst (build h (Some p) t) = Inl (NotBuilderCallArg v) \<and> \<not> is_BuilderCallArg v"
proof -
  let ?q = "objectsToResolve st"
  let ?st = "log_calls [CallGetObjectBatch (map fst ?q)] st"
  let ?w = "writeObjects h objects ?q ?st"
  have kq: "k < length ?q" using assms(4,5) by simp
  have ne: "objects \<noteq> []" "?q \<noteq> []" using assms(5) kq by auto
  obtain oid i where e: "?q ! k = (oid, i)" by (cases "?q ! k")
  have last: "\<forall>k'. k < k' \<and> k' < length objects \<and> k' < length ?q \<longrightarrow> snd (?q ! k') \<noteq> i"
    using assms(6) e by simp
  have w: "i < length (inputs (tx (snd (build h (Some p) t))))
     \<and> val (inputs (tx (snd (build h (Some p) t))) ! i) = resolvedObject h oid (objects ! k)"
    using build_writes_object[OF assms(1,2,3,5) kq e last] by simp
  have b: "build h (Some p) t =
     (case ?w of (Inl e, st') \<Rightarrow> (Inl e, st') | (Inr u, st') \<Rightarrow> assemble h st')"
    by (rule build_after_batch[OF assms(1,2,3) ne])
  have ok: "fst ?w = Inr ()"
    by (rule writeObjects_succeeds) (simp add: log_calls_def assms(4))
  then have b': "build h (Some p) t = assemble h (snd ?w)"
    unfolding b by (cases ?w) simp
  then have s: "snd (build h (Some p) t) = snd ?w" by (simp add: assemble_state)
  have "\<not> is_BuilderCallArg (val (inputs (tx (snd ?w)) ! i))"
    using w s assms(7) e by simp
  moreover have "i < length (inputs (tx (snd ?w)))" using w s by simp
  ultimately obtain v where "resolveInputs (inputs (tx (snd ?w))) = Inl (NotBuilderCallArg v)"
    and "\<not> is_BuilderCallArg v"
    using resolveInputs_unresolved by blast
  then show ?thesis unfolding b' by (simp add: assemble_def)
qed

lemma set_input_value_index:
  "map index (inputs (tx (set_input_value i v st))) = map index (inputs (tx st))"
proof (cases "i < length (inputs (tx st))")
  case True
  then show ?thesis
    by (simp add: set_input_value_def map_update list_update_same_conv)
next
  case False
  then show ?thesis by (simp add: set_input_value_def list_update_beyond)
qed

lemma writeObjects_index:
  "map index (inputs (tx (snd (writeObjects h objects q st)))) = map index (inputs (tx st))"
  by (induction h objects q st rule: writeObjects.induct) (simp_all add: set_input_value_index)

lemma build_leaves_others:
  assumes "validate t = None"
    and "fillQueue h (Some p) (initial_state t) = (Inr (), st)"
    and "getObjectBatch p (map fst (objectsToResolve st)) = Inr objects"
    and "objects \<noteq> []" and "objectsToResolve st \<noteq> []"
  shows "map index (inputs (tx (snd (build h (Some p) t)))) = map index (inputs (tx st))
     \<and> (\<forall>j. j \<notin> snd ` set (take (length objects) (objectsToResolve st))
           \<longrightarrow> inputs (tx (snd (build h (Some p) t))) ! j = inputs (tx st) ! j)"
proof -
  let ?q = "objectsToResolve st"
  let ?st = "log_calls [CallGetObjectBatch (map fst ?q)] st"
  let ?w = "writeObjects h objects ?q ?st"
  have b: "build h (Some p) t =
     (case ?w of (Inl e, st') \<Rightarrow> (Inl e, st') | (Inr u, st') \<Rightarrow> assemble h st')"
    by (rule build_after_batch[OF assms])
  have s: "snd (build h (Some p) t) = snd ?w"
    unfolding b by (cases ?w) (simp add: assemble_state split: sum.splits)
  have q': "inputs (tx ?st) = inputs (tx st)" by (simp add: log_calls_def)
  have i: "map index (inputs (tx (snd ?w))) = map index (inputs (tx st))"
    using writeObjects_index[of h objects ?q ?st] q' by simp
  have u: "\<forall>j. j \<notin> snd ` set (take (length objects) ?q)
           \<longrightarrow> inputs (tx (snd ?w)) ! j = inputs (tx st) ! j"
    using writeObjects_untouched[of _ objects ?q h ?st] q' by simp
  show ?thesis using s i u by simp
qed

text \<open>
  C8 as stated fails in its last part. The identifier \<open>0x404\<close> is queued by the first
  input; the response for it has no initial shared version and no object reference; what
  is written into the input is an \<open>ImmOrOwned\<close> without a reference, which is not an owned
  object reference.
\<close>

theorem object_without_reference_counterexample:
  "objectsToResolve (snd (build example_helpers (Some example_provider) missing_object_tx))
     = [(''0x404'', 0)]
   \<and> getObjectBatch example_provider [''0x404''] = Inr [(0, None)]
   \<and> getSharedObjectInitialVersion example_helpers (0, None) = None
   \<and> val (inputs (tx (snd (build example_helpers (Some example_provider) missing_object_tx))) ! 0)
       = JObject (ImmOrOwned None)
   \<and> \<not> is_BuilderCallArg (JObject (ImmOrOwned None))"
  by (simp add: build_defs example_defs String_number.simps digit_def)

text \<open>
  C8, amended (positional mapping). Take a build that has filled its queue and whose
  provider answers the batch. The one request carries the queued identifiers in queueing
  order, and the response at position \<open>k\<close> is written into the input that queued the
  identifier at position \<open>k\<close> (a later entry for the same input writes over it): a shared
  reference with the identifier, the initial shared version and the mutable flag set when
  the response has an initial shared version (other than zero), and an owned reference when
  it has none and carries an object reference. The indices of the inputs stay as they
  were, and an input that no answered queue entry points at is left as it was.
\<close>

theorem object_resolution_positional:
  assumes "validate t = None"
    and "fillQueue h (Some p) (initial_state t) = (Inr (), st)"
    and "getObjectBatch p (map fst (objectsToResolve st)) = Inr objects"
    and "k < length objects" and "k < length (objectsToResolve st)"
    and "objectsToResolve st ! k = (oid, i)"
    and "\<forall>k'. k < k' \<and> k' < length objects \<and> k' < length (objectsToResolve st)
           \<longrightarrow> snd (objectsToResolve st ! k') \<noteq> i"
  shows "calls (snd (build h (Some p) t))
           = calls st @ [CallGetObjectBatch (map fst (objectsToResolve st))]
     \<and> i < length (inputs (tx (snd (build h (Some p) t))))
     \<and> val (inputs (tx (snd (build h (Some p) t))) ! i) = resolvedObject h oid (objects ! k)
     \<and> (\<forall>v. getSharedObjectInitialVersion h (objects ! k) = Some v \<and> v \<noteq> 0
           \<longrightarrow> val (inputs (tx (snd (build h (Some p) t))) ! i)
                 = JObject (Shared (SharedObjectRef oid v True))
               \<and> resolved (inputs (tx (snd (build h (Some p) t))) ! i))
     \<and> (\<forall>ref. (getSharedObjectInitialVersion h (objects ! k) = None
                \<or> getSharedObjectInitialVersion h (objects ! k) = Some 0)
               \<and> getObjectReference h (objects ! k) = Some ref
           \<longrightarrow> val (inputs (tx (snd (build h (Some p) t))) ! i) = JObject (ImmOrOwned (Some ref))
               \<and> resolved (inputs (tx (snd (build h (Some p) t))) ! i))
     \<and> map index (inputs (tx (snd (build h (Some p) t)))) = map index (inputs (tx st))
     \<and> (\<forall>j. j \<notin> snd ` set (take (length objects) (objectsToResolve st))
           \<longrightarrow> inputs (tx (snd (build h (Some p) t))) ! j = inputs (tx st) ! j)"
proof -
  let ?v = "val (inputs (tx (snd (build h (Some p) t))) ! i)"
  have w: "i < length (inputs (tx (snd (build h (Some p) t))))
     \<and> ?v = resolvedObject h oid (objects ! k)
     \<and> calls (snd (build h (Some p) t))
         = calls st @ [CallGetObjectBatch (map fst (objectsToResolve st))]"
    by (rule build_writes_object[OF assms])
  have ne: "objects \<noteq> []" "objectsToResolve st \<noteq> []" using assms(4,5) by auto
  have f: "map index (inputs (tx (snd (build h (Some p) t)))) = map index (inputs (tx st))
     \<and> (\<forall>j. j \<notin> snd ` set (take (length objects) (objectsToResolve st))
           \<longrightarrow> inputs (tx (snd (build h (Some p) t))) ! j = inputs (tx st) ! j)"
    by (rule build_leaves_others[OF assms(1,2,3) ne])
  have s: "\<forall>v. getSharedObjectInitialVersion h (objects ! k) = Some v \<and> v \<noteq> 0
            \<longrightarrow> ?v = JObject (Shared (SharedObjectRef oid v True))
                \<and> resolved (inputs (tx (snd (build h (Some p) t))) ! i)"
    using w by (simp add: resolvedObject_def Inputs_SharedObjectRef_def resolved_def)
  have o: "\<forall>ref. (getSharedObjectInitialVersion h (objects ! k) = None
                \<or> getSharedObjectInitialVersion h (objects ! k) = Some 0)
               \<and> getObjectReference h (objects ! k) = Some ref
            \<longrightarrow> ?v = JObject (ImmOrOwned (Some ref))
                \<and> resolved (inputs (tx (snd (build h (Some p) t))) ! i)"
    using w by (auto simp: resolvedObject_def Inputs_ObjectRef_def resolved_def)
  show ?thesis using w f s o by blast
qed

lemma two_objects_fillQueue:
  "fillQueue example_helpers (Some example_provider) (initial_state two_objects_tx) = (Inr (), two_objects_queued)"
  by (simp add: build_defs example_defs two_objects_tx_def two_objects_queued_def
      String_number.simps digit_def)

theorem object_resolution_positional_witness:
  "val (inputs (tx (snd (build example_helpers (Some example_provider) two_objects_tx))) ! 0)
     = JObject (Shared (SharedObjectRef ''0x6'' 1 True))
   \<and> val (inputs (tx (snd (build example_helpers (Some example_provider) two_objects_tx))) ! 1)
     = JObject (ImmOrOwned (Some \<lparr>objectId = ''0x5'', version = 3, digest = ''d''\<rparr>))
   \<and> calls (snd (build example_helpers (Some example_provider) two_objects_tx))
     = [CallGetReferenceGasPrice, CallGetObjectBatch [''0x6'', ''0x5'']]
   \<and> inputs (tx (snd (build example_helpers (Some example_provider) two_objects_tx))) ! 2
     = \<lparr>index = 2, val = JPure [100]\<rparr>"
proof -
  let ?objects = "[(1, Some \<lparr>objectId = ''0x6'', version = 3, digest = ''d''\<rparr>),
                   (0, Some \<lparr>objectId = ''0x5'', version = 3, digest = ''d''\<rparr>)]"
  have v: "validate two_objects_tx = None"
    by (simp add: validate_def falsy_def two_objects_tx_def example_defs)
  have b: "getObjectBatch example_provider (map fst (objectsToResolve two_objects_queued)) = Inr ?objects"
    by (simp add: two_objects_queued_def example_provider_def)
  have q0: "objectsToResolve two_objects_queued ! 0 = (''0x6'', 0)"
    and q1: "objectsToResolve two_objects_queued ! 1 = (''0x5'', 1)"
    by (simp_all add: two_objects_queued_def)
  have l0: "\<forall>k'. 0 < k' \<and> k' < length ?objects \<and> k' < length (objectsToResolve two_objects_queued)
           \<longrightarrow> snd (objectsToResolve two_objects_queued ! k') \<noteq> 0"
    by (auto simp: two_objects_queued_def less_Suc_eq)
  have l1: "\<forall>k'. 1 < k' \<and> k' < length ?objects \<and> k' < length (objectsToResolve two_objects_queued)
           \<longrightarrow> snd (objectsToResolve two_objects_queued ! k') \<noteq> 1"
    by (auto simp: two_objects_queued_def)
  have a0: "0 < length ?objects" "0 < length (objectsToResolve two_objects_queued)"
    and a1: "1 < length ?objects" "1 < length (objectsToResolve two_objects_queued)"
    by (simp_all add: two_objects_queued_def)
  have r0: "resolvedObject example_helpers ''0x6'' (?objects ! 0)
              = JObject (Shared (SharedObjectRef ''0x6'' 1 True))"
    and r1: "resolvedObject example_helpers ''0x5'' (?objects ! 1)
              = JObject (ImmOrOwned (Some \<lparr>objectId = ''0x5'', version = 3, digest = ''d''\<rparr>))"
    by (simp_all add: resolvedObject_def example_helpers_def Inputs_SharedObjectRef_def
        Inputs_ObjectRef_def)
  have c: "calls two_objects_queued @ [CallGetObjectBatch (map fst (objectsToResolve two_objects_queued))]
             = [CallGetReferenceGasPrice, CallGetObjectBatch [''0x6'', ''0x5'']]"
    by (simp add: two_objects_queued_def)
  have u: "2 \<notin> snd ` set (take (length ?objects) (objectsToResolve two_objects_queued))"
    by (simp add: two_objects_queued_def)
  have i2: "inputs (tx two_objects_queued) ! 2 = \<lparr>index = 2, val = JPure [100]\<rparr>"
    by (simp add: two_objects_queued_def)
  show ?thesis
    using object_resolution_positional[OF v two_objects_fillQueue b a0 q0 l0]
      object_resolution_positional[OF v two_objects_fillQueue b a1 q1 l1] u
    unfolding r0 r1 c i2[symmetric] by blast
qed

lemma build_batch_fails:
  assumes "validate t = None"
    and "fillQueue h (Some p) (initial_state t) = (Inr (), st)"
    and "objectsToResolve st \<noteq> []"
    and "getObjectBatch p (map fst (objectsToResolve st)) = Inl msg"
  shows "fst (build h (Some p) t) = Inl (External msg)"
  using assms
  by (simp add: build_def andThen_def finish_def resolveObjects_def expectProvider_def external_def)

text \<open>
  C4 as stated fails: there is no error for a failed lookup. A response without a reference
  leaves a value that is no call argument in the input, and the build fails in the
  assertion that every input holds a call argument. A builder that asks nothing of the
  provider and has an input that no command uses fails in the same assertion, with the
  same error when the input holds the same value.
\<close>

theorem lookup_failure_counterexample:
  "fst (build example_helpers (Some example_provider) missing_object_tx)
     = Inl (NotBuilderCallArg (JObject (ImmOrOwned None)))
   \<and> fst (build example_helpers None (dangling_tx (JObject (ImmOrOwned None))))
     = Inl (NotBuilderCallArg (JObject (ImmOrOwned None)))
   \<and> fst (build example_helpers None (dangling_tx (JString ''0x5'')))
     = Inl (NotBuilderCallArg (JString ''0x5''))"
  by (simp add: build_defs example_defs missing_object_tx_def dangling_tx_def)

text \<open>
  C4, amended (an identifier that does not resolve). Take a build that has filled its queue
  with at least one entry. If the provider fails on the batch, the build fails with the
  error of the provider. If it answers with at most one response for every entry, and some
  response has neither an initial shared version nor an object reference (and no later
  entry writes the same input), then the build produces no payload: it fails in the
  completeness check, with the error of an input that holds no call argument.
\<close>

theorem unresolved_object_aborts:
  assumes "validate t = None"
    and "fillQueue h (Some p) (initial_state t) = (Inr (), st)"
    and "objectsToResolve st \<noteq> []"
  shows "(\<forall>msg. getObjectBatch p (map fst (objectsToResolve st)) = Inl msg
           \<longrightarrow> fst (build h (Some p) t) = Inl (External msg))
     \<and> (\<forall>objects k.
           getObjectBatch p (map fst (objectsToResolve st)) = Inr objects
           \<and> length objects \<le> length (objectsToResolve st) \<and> k < length objects
           \<and> (getSharedObjectInitialVersion h (objects ! k) = None
                \<or> getSharedObjectInitialVersion h (objects ! k) = Some 0)
           \<and> getObjectReference h (objects ! k) = None
           \<and> (\<forall>k'. k < k' \<and> k' < length objects
                  \<longrightarrow> snd (objectsToResolve st ! k') \<noteq> snd (objectsToResolve st ! k))
           \<longrightarrow> (\<exists>v. fst (build h (Some p) t) = Inl (NotBuilderCallArg v) \<and> \<not> is_BuilderCallArg v))"
proof (intro conjI allI impI)
  fix msg
  assume "getObjectBatch p (map fst (objectsToResolve st)) = Inl msg"
  then show "fst (build h (Some p) t) = Inl (External msg)"
    by (rule build_batch_fails[OF assms])
next
  fix objects k
  assume a: "getObjectBatch p (map fst (objectsToResolve st)) = Inr objects
           \<and> length objects \<le> length (objectsToResolve st) \<and> k < length objects
           \<and> (getSharedObjectInitialVersion h (objects ! k) = None
                \<or> getSharedObjectInitialVersion h (objects ! k) = Some 0)
           \<and> getObjectReference h (objects ! k) = None
           \<and> (\<forall>k'. k < k' \<and> k' < length objects
                  \<longrightarrow> snd (objectsToResolve st ! k') \<noteq> snd (objectsToResolve st ! k))"
  have "resolvedObject h (fst (objectsToResolve st ! k)) (objects ! k) = JObject (ImmOrOwned None)"
    using a by (auto simp: resolvedObject_def Inputs_ObjectRef_def)
  then have n: "\<not> is_BuilderCallArg (resolvedObject h (fst (objectsToResolve st ! k)) (objects ! k))"
    by simp
  show "\<exists>v. fst (build h (Some p) t) = Inl (NotBuilderCallArg v) \<and> \<not> is_BuilderCallArg v"
    using build_unresolved_object[OF assms(1,2) _ _ _ _ n] a by blast
qed

lemma missing_object_fillQueue:
  "fillQueue example_helpers (Some example_provider) (initial_state missing_object_tx)
     = (Inr (), missing_object_queued)"
  by (simp add: build_defs example_defs missing_object_tx_def missing_object_queued_def
      String_number.simps digit_def)

theorem unresolved_object_aborts_witness:
  "\<exists>v. fst (build example_helpers (Some example_provider) missing_object_tx)
          = Inl (NotBuilderCallArg v) \<and> \<not> is_BuilderCallArg v"
proof -
  have v: "validate missing_object_tx = None"
    by (simp add: validate_def falsy_def missing_object_tx_def example_defs)
  have q: "objectsToResolve missing_object_queued \<noteq> []"
    by (simp add: missing_object_queued_def)
  have b: "getObjectBatch example_provider (map fst (objectsToResolve missing_object_queued))
             = Inr [(0, None)]
           \<and> length [(0::nat, None::SuiObjectRef option)] \<le> length (objectsToResolve missing_object_queued)
           \<and> 0 < length [(0::nat, None::SuiObjectRef option)]
           \<and> (getSharedObjectInitialVersion example_helpers ([(0, None)] ! 0) = None
                \<or> getSharedObjectInitialVersion example_helpers ([(0, None)] ! 0) = Some 0)
           \<and> getObjectReference example_helpers ([(0, None)] ! 0) = None
           \<and> (\<forall>k'. 0 < k' \<and> k' < length [(0::nat, None::SuiObjectRef option)]
                  \<longrightarrow> snd (objectsToResolve missing_object_queued ! k')
                        \<noteq> snd (objectsToResolve missing_object_queued ! 0))"
    by (auto simp: missing_object_queued_def example_provider_def example_helpers_def)
  show ?thesis
    using unresolved_object_aborts[OF v missing_object_fillQueue q] b by blast
qed


subsection \<open>Building resolved inputs\<close>

lemma forEach_const:
  assumes "\<And>x s. Q s \<Longrightarrow> f x s = (fst (f x s0), s)" and "Q s0" and "Q s"
  shows "forEach f xs s = (fst (forEach f xs s0), s)"
proof (induction xs)
  case Nil
  then show ?case by simp
next
  case (Cons x xs)
  have a: "f x s = (fst (f x s0), s)" by (rule assms(1)[OF assms(3)])
  have b: "f x s0 = (fst (f x s0), s0)" by (rule assms(1)[OF assms(2)])
  show ?case
  proof (cases "fst (f x s0)")
    case (Inl e)
    have "forEach f (x # xs) s = (Inl e, s)" using a Inl by simp
    moreover have "forEach f (x # xs) s0 = (Inl e, s0)" using b Inl by simp
    ultimately show ?thesis by simp
  next
    case (Inr u)
    have "forEach f (x # xs) s = forEach f xs s" using a Inr by simp
    moreover have "forEach f (x # xs) s0 = forEach f xs s0" using b Inr by simp
    ultimately show ?thesis using Cons.IH by simp
  qed
qed

lemma encodeInput_resolved:
  "list_all resolved (inputs (tx st))
     \<Longrightarrow> encodeInput h wk i st
           = ((if i < length (inputs (tx st)) then Inr () else Inl MissingInput), st)"
  by (auto simp: encodeInput_def Let_def list_all_length resolved_def)

lemma encodeArgument_const:
  "same_resolved_inputs s0 s \<Longrightarrow> encodeArgument h wk a s = (fst (encodeArgument h wk a s0), s)"
  by (cases a) (simp_all add: encodeArgument_def encodeInput_resolved same_resolved_inputs_def)

lemma same_resolved_inputs_refl:
  "list_all resolved (inputs (tx s0)) \<Longrightarrow> same_resolved_inputs s0 s0"
  by (simp add: same_resolved_inputs_def)

lemma same_resolved_inputs_base:
  "same_resolved_inputs s0 s \<Longrightarrow> same_resolved_inputs s0 s0"
  by (simp add: same_resolved_inputs_def)

lemma forEach_encodeArgument_const:
  assumes "same_resolved_inputs s0 s"
  shows "forEach (encodeArgument h wk) items s = (fst (forEach (encodeArgument h wk) items s0), s)"
  by (rule forEach_const[where Q = "same_resolved_inputs s0"])
    (simp_all add: encodeArgument_const assms same_resolved_inputs_base[OF assms])

lemma scanField_const:
  assumes "same_resolved_inputs s0 s"
  shows "scanField h schema kv s = (fst (scanField h schema kv s0), s)"
  using forEach_encodeArgument_const[OF assms, of h] encodeArgument_const[OF assms, of h]
  by (auto simp: scanField_def split: option.splits field.splits)

lemma forEach_scanField_const:
  assumes "same_resolved_inputs s0 s"
  shows "forEach (scanField h schema) fs s = (fst (forEach (scanField h schema) fs s0), s)"
  by (rule forEach_const[where Q = "same_resolved_inputs s0"])
    (simp_all add: scanField_const assms same_resolved_inputs_base[OF assms])

lemma needsResolution_resolved:
  "list_all resolved ins \<Longrightarrow> needsResolution ins as \<noteq> Inr True"
  by (induction ins as rule: needsResolution.induct)
    (auto simp: list_all_length resolved_def)

lemma scanCommand_const:
  assumes "same_resolved_inputs s0 s"
  shows "scanCommand h c s = (fst (scanCommand h c s0), s)"
proof (cases c)
  case (MoveCall m)
  have i: "inputs (tx s) = inputs (tx s0)" and r: "list_all resolved (inputs (tx s0))"
    using assms by (simp_all add: same_resolved_inputs_def)
  show ?thesis
    using needsResolution_resolved[OF r, of "arguments m"] i MoveCall
    by (cases "needsResolution (inputs (tx s0)) (arguments m)")
      (auto simp: scanCommand_def split: bool.splits)
next
  case (Command k fs)
  then show ?thesis
    using forEach_scanField_const[OF assms, of h]
    by (simp add: scanCommand_def split: option.splits)
qed

lemma scan_const:
  assumes "same_resolved_inputs s0 s"
  shows "forEach (scanCommand h) cs s = (fst (forEach (scanCommand h) cs s0), s)"
  by (rule forEach_const[where Q = "same_resolved_inputs s0"])
    (simp_all add: scanCommand_const assms same_resolved_inputs_base[OF assms])

lemma resolveInputs_resolved: "list_all resolved ins \<Longrightarrow> resolveInputs ins = Inr (map val ins)"
  by (induction ins) (simp_all add: resolved_def)

lemma String_number_not_empty: "String_number n \<noteq> []"
  by (subst String_number.simps) simp

text \<open>What the price fill leaves of the state.\<close>

lemma fillGasPrice_frame:
  assumes "fillGasPrice provider (initial_state t) = (r, s1)"
  shows "inputs (tx s1) = inputs t \<and> commands (tx s1) = commands t
     \<and> sender (tx s1) = sender t \<and> expiration (tx s1) = expiration t
     \<and> budget (gasConfig (tx s1)) = budget (gasConfig t)
     \<and> payment (gasConfig (tx s1)) = payment (gasConfig t)
     \<and> owner (gasConfig (tx s1)) = owner (gasConfig t)
     \<and> moveModulesToResolve s1 = [] \<and> objectsToResolve s1 = []
     \<and> (r = Inr () \<longrightarrow> \<not> falsy (price (gasConfig (tx s1))))"
  using assms
  by (auto simp: fillGasPrice_def initial_state_def expectProvider_def external_def log_calls_def
      set_price_def falsy_def String_number_not_empty split: if_splits option.splits sum.splits)

lemma build_price_fails:
  assumes "validate t = None" and "fillGasPrice provider (initial_state t) = (Inl e, s1)"
  shows "build h provider t = (Inl e, s1)"
  using assms by (simp add: build_def andThen_def fillQueue_def)

lemma build_resolved:
  assumes "list_all resolved (inputs t)" and "validate t = None"
    and "fillGasPrice provider (initial_state t) = (Inr (), s1)"
  shows "build h provider t =
     (case fst (forEach (scanCommand h) (commands t) (initial_state t)) of
        Inl e \<Rightarrow> (Inl e, s1)
      | Inr u \<Rightarrow> (external (serTransactionData h (transactionData (tx s1) (map val (inputs t)))), s1))"
proof -
  note f = fillGasPrice_frame[OF assms(3)]
  have q: "same_resolved_inputs (initial_state t) s1"
    using f assms(1) by (simp add: same_resolved_inputs_def initial_state_def)
  have sc: "forEach (scanCommand h) (commands (tx s1)) s1
              = (fst (forEach (scanCommand h) (commands t) (initial_state t)), s1)"
    using scan_const[OF q, of h "commands t"] f by simp
  have ri: "resolveInputs (inputs (tx s1)) = Inr (map val (inputs t))"
    using resolveInputs_resolved[OF assms(1)] f by simp
  show ?thesis
    using assms(2,3) sc ri f
    by (cases "fst (forEach (scanCommand h) (commands t) (initial_state t))")
      (simp_all add: build_def andThen_def fillQueue_def finish_def resolveMoveCalls_def
        resolveObjects_def assemble_def)
qed

lemma tx_initial_state: "tx (initial_state t) = t"
  by (simp add: initial_state_def)

lemma build_twice:
  assumes "list_all resolved (inputs t)" and "validate t = None"
    and "fillGasPrice p1 (initial_state t) = (Inr (), s1)"
  shows "snd (build h p1 t) = s1 \<and> fst (build h p2 (tx s1)) = fst (build h p1 t)"
proof -
  note f = fillGasPrice_frame[OF assms(3)]
  let ?scan = "fst (forEach (scanCommand h) (commands t) (initial_state t))"
  have b1: "build h p1 t =
     (case ?scan of
        Inl e \<Rightarrow> (Inl e, s1)
      | Inr u \<Rightarrow> (external (serTransactionData h (transactionData (tx s1) (map val (inputs t)))), s1))"
    by (rule build_resolved[OF assms])
  have s: "snd (build h p1 t) = s1" unfolding b1 by (cases ?scan) simp_all
  have i1: "inputs (tx s1) = inputs t" using f by simp
  have r1: "list_all resolved (inputs (tx s1))" using f assms(1) by simp
  have "validate (tx s1) = validate t" unfolding validate_def using f by simp
  then have v1: "validate (tx s1) = None" using assms(2) by simp
  have g1: "fillGasPrice p2 (initial_state (tx s1)) = (Inr (), initial_state (tx s1))"
    using f by (simp add: fillGasPrice_def initial_state_def)
  have q: "same_resolved_inputs (initial_state t) (initial_state (tx s1))"
    using f assms(1) by (simp add: same_resolved_inputs_def initial_state_def)
  have sc: "fst (forEach (scanCommand h) (commands (tx s1)) (initial_state (tx s1))) = ?scan"
    using scan_const[OF q, of h "commands t"] f by simp
  have b2: "build h p2 (tx s1) =
     (case ?scan of
        Inl e \<Rightarrow> (Inl e, initial_state (tx s1))
      | Inr u \<Rightarrow> (external (serTransactionData h (transactionData (tx s1) (map val (inputs t)))),
                  initial_state (tx s1)))"
    using build_resolved[OF r1 v1 g1, of h] unfolding tx_initial_state sc i1 by simp
  have "fst (build h p2 (tx s1)) = fst (build h p1 t)"
    unfolding b1 b2 by (cases ?scan) simp_all
  then show ?thesis using s by simp
qed

text \<open>
  C6 (build idempotence). Take a builder whose inputs are all resolved and whose sender, gas
  budget and gas payment are set. If a build returns a payload, a second build of the
  builder the first one left returns the same payload, whatever the provider is by then.
  More generally, once the gas price is known (set, or given by the provider) the second
  outcome is the first. When the price is set, the build calls nobody and changes nothing:
  unless the scan of the commands fails, its outcome is the encoding of the transaction
  data with the values of the inputs.
\<close>

theorem build_idempotent:
  assumes "list_all resolved (inputs t)" and "validate t = None"
  shows "(\<forall>bytes. fst (build h p1 t) = Inr bytes
            \<longrightarrow> fst (build h p2 (tx (snd (build h p1 t)))) = Inr bytes)
     \<and> (\<not> falsy (price (gasConfig t)) \<or> (\<exists>p n. p1 = Some p \<and> getReferenceGasPrice p = Inr n)
            \<longrightarrow> fst (build h p2 (tx (snd (build h p1 t)))) = fst (build h p1 t))
     \<and> (\<not> falsy (price (gasConfig t))
            \<longrightarrow> build h p1 t =
                 (case fst (forEach (scanCommand h) (commands t) (initial_state t)) of
                    Inl e \<Rightarrow> (Inl e, initial_state t)
                  | Inr u \<Rightarrow>
                      (external (serTransactionData h (transactionData t (map val (inputs t)))),
                       initial_state t)))"
proof (intro conjI allI impI)
  fix bytes
  assume ok: "fst (build h p1 t) = Inr bytes"
  obtain r s1 where g: "fillGasPrice p1 (initial_state t) = (r, s1)"
    by (cases "fillGasPrice p1 (initial_state t)")
  have "r = Inr ()"
  proof (cases r)
    case (Inl e)
    then show ?thesis using build_price_fails[OF assms(2), of p1 e s1 h] g ok by simp
  next
    case (Inr u)
    then show ?thesis by simp
  qed
  then show "fst (build h p2 (tx (snd (build h p1 t)))) = Inr bytes"
    using build_twice[OF assms, of p1 s1 h p2] g ok by simp
next
  assume "\<not> falsy (price (gasConfig t)) \<or> (\<exists>p n. p1 = Some p \<and> getReferenceGasPrice p = Inr n)"
  then have "\<exists>s1. fillGasPrice p1 (initial_state t) = (Inr (), s1)"
    by (auto simp: fillGasPrice_def initial_state_def expectProvider_def external_def)
  then obtain s1 where "fillGasPrice p1 (initial_state t) = (Inr (), s1)" by blast
  then show "fst (build h p2 (tx (snd (build h p1 t)))) = fst (build h p1 t)"
    using build_twice[OF assms, of p1 s1 h p2] by simp
next
  assume "\<not> falsy (price (gasConfig t))"
  then have g: "fillGasPrice p1 (initial_state t) = (Inr (), initial_state t)"
    by (simp add: fillGasPrice_def initial_state_def)
  show "build h p1 t =
          (case fst (forEach (scanCommand h) (commands t) (initial_state t)) of
             Inl e \<Rightarrow> (Inl e, initial_state t)
           | Inr u \<Rightarrow>
               (external (serTransactionData h (transactionData t (map val (inputs t)))),
                initial_state t))"
    using build_resolved[OF assms g, of h] unfolding tx_initial_state by simp
qed

theorem build_idempotent_witness:
  "list_all resolved (inputs resolved_tx) \<and> validate resolved_tx = None
   \<and> fst (build example_helpers (Some example_provider) resolved_tx) = Inr [0, 1]
   \<and> fst (build example_helpers None
            (tx (snd (build example_helpers (Some example_provider) resolved_tx)))) = Inr [0, 1]"
proof -
  have r: "list_all resolved (inputs resolved_tx)"
    by (simp add: example_defs resolved_def)
  have v: "validate resolved_tx = None"
    by (simp add: example_defs validate_def falsy_def)
  have b: "fst (build example_helpers (Some example_provider) resolved_tx) = Inr [0, 1]"
    by (simp add: build_defs example_defs)
  show ?thesis
    using build_idempotent[OF r v, of example_helpers "Some example_provider" None] r v b
    by blast
qed

end
